theory Spec2Isabelle
  imports Complex_Main
begin

section \<open>Strings: identifier shape and slug normalisation\<close>

text \<open>
  JavaScript strings are modelled as \<open>string\<close> (lists of 8-bit characters, read as
  Latin-1 code points). The controller and the product model both declare
  \<^verbatim>\<open>isHex24 = (s) => typeof s === "string" && /^[a-fA-F0-9]{24}$/.test(s)\<close>.
\<close>

definition isHexDigit :: "char \<Rightarrow> bool" where
  "isHexDigit c = (c \<in> set ''0123456789abcdefABCDEF'')"

definition isHex24 :: "string \<Rightarrow> bool" where
  "isHex24 s = (length s = 24 \<and> list_all isHexDigit s)"

text \<open>\<^verbatim>\<open>String.prototype.toLowerCase\<close>: on Latin-1 only the letters A-Z can map into
  \<^verbatim>\<open>[a-z0-9]\<close>; every other character stays outside that class whatever its case.\<close>

definition lowerChar :: "char \<Rightarrow> char" where
  "lowerChar c =
     (case map_of (zip ''ABCDEFGHIJKLMNOPQRSTUVWXYZ'' ''abcdefghijklmnopqrstuvwxyz'') c of
        Some d \<Rightarrow> d
      | None \<Rightarrow> c)"

definition toLowerCase :: "string \<Rightarrow> string" where
  "toLowerCase s = map lowerChar s"

text \<open>\<^verbatim>\<open>String.prototype.trim\<close>: white space is TAB, LF, VT, FF, CR, SPACE and NBSP.\<close>

definition isWhiteSpace :: "char \<Rightarrow> bool" where
  "isWhiteSpace c =
     (c \<in> set [CHR 0x09, CHR 0x0A, CHR 0x0B, CHR 0x0C, CHR 0x0D, CHR 0x20, CHR 0xA0])"

definition trim :: "string \<Rightarrow> string" where
  "trim s = rev (dropWhile isWhiteSpace (rev (dropWhile isWhiteSpace s)))"

text \<open>The character class \<^verbatim>\<open>[a-z0-9]\<close>.\<close>

definition isAlnum :: "char \<Rightarrow> bool" where
  "isAlnum c = (c \<in> set ''abcdefghijklmnopqrstuvwxyz0123456789'')"

text \<open>\<^verbatim>\<open>.replace(/[^a-z0-9]+/g, "-")\<close>: every maximal run of characters outside the
  class becomes one hyphen.\<close>

function replaceNonAlnumRuns :: "string \<Rightarrow> string" where
  "replaceNonAlnumRuns [] = []"
| "replaceNonAlnumRuns (c # cs) =
     (if isAlnum c then c # replaceNonAlnumRuns cs
      else CHR ''-'' # replaceNonAlnumRuns (dropWhile (\<lambda>d. \<not> isAlnum d) cs))"
  by pat_completeness auto
termination
  by (relation "measure length") (auto simp: le_imp_less_Suc length_dropWhile_le)

text \<open>\<^verbatim>\<open>.replace(/(^-|-$)+/g, "")\<close>: without the multiline flag \<^verbatim>\<open>^\<close> matches at
  offset 0 only and \<^verbatim>\<open>$\<close> at the end only, so a match is the first character when
  it is a hyphen (extended by the second one only for the string \<^verbatim>\<open>--\<close>), or the
  last character when it is a hyphen: one hyphen goes at each end.\<close>

definition stripLeadingHyphen :: "string \<Rightarrow> string" where
  "stripLeadingHyphen s = (case s of [] \<Rightarrow> [] | c # cs \<Rightarrow> if c = CHR ''-'' then cs else s)"

definition stripTrailingHyphen :: "string \<Rightarrow> string" where
  "stripTrailingHyphen s = (if s \<noteq> [] \<and> last s = CHR ''-'' then butlast s else s)"

definition stripEdgeHyphens :: "string \<Rightarrow> string" where
  "stripEdgeHyphens s = stripTrailingHyphen (stripLeadingHyphen s)"

text \<open>The slug normalisation of \<^verbatim>\<open>create\<close> and \<^verbatim>\<open>updateById\<close>:
  \<^verbatim>\<open>String(slug).toLowerCase().trim().replace(/[^a-z0-9]+/g, "-").replace(/(^-|-$)+/g, "")\<close>.\<close>

definition normalizeSlug :: "string \<Rightarrow> string" where
  "normalizeSlug s = stripEdgeHyphens (replaceNonAlnumRuns (trim (toLowerCase s)))"

text \<open>The slug the \<^verbatim>\<open>pre("save")\<close> hook derives from the title (no \<^verbatim>\<open>trim\<close> there).\<close>

definition slugFromTitle :: "string \<Rightarrow> string" where
  "slugFromTitle s = stripEdgeHyphens (replaceNonAlnumRuns (toLowerCase s))"

section \<open>Numbers\<close>

text \<open>
  A JavaScript number is an IEEE 754 binary64 value: a finite double, given here by
  its rational value, an infinity, or NaN. A number of a JSON body is the double the
  parser produced for it (\<^verbatim>\<open>1e999\<close> parses to \<^verbatim>\<open>Infinity\<close>; no JSON text parses to NaN).
  The sign of zero is not modelled: no test of the code tells \<^verbatim>\<open>-0\<close> from \<^verbatim>\<open>0\<close>, and
  JSON prints both as \<^verbatim>\<open>0\<close>.
\<close>

datatype number = Finite rat | PosInfinity | NegInfinity | NaN

text \<open>Rounding to the nearest double, ties to the even significand. \<open>exponentOf x\<close> is
  the integer \<open>e\<close> with \<open>2\<^sup>e \<le> |x| < 2\<^sup>e\<^sup>+\<^sup>1\<close>, found from the bit lengths of numerator
  and denominator; a double has 53 significant bits, so its unit in the last place is
  \<open>2\<^sup>e\<^sup>-\<^sup>5\<^sup>2\<close>, and \<open>2\<^sup>-\<^sup>1\<^sup>0\<^sup>7\<^sup>4\<close> below the normal range. A result of magnitude \<open>2\<^sup>1\<^sup>0\<^sup>2\<^sup>4\<close> or
  more is an infinity.\<close>

definition pow2 :: "int \<Rightarrow> rat" where
  "pow2 e = (if 0 \<le> e then 2 ^ nat e else 1 / 2 ^ nat (- e))"

function log2floor :: "int \<Rightarrow> int" where
  "log2floor n = (if n < 2 then 0 else 1 + log2floor (n div 2))"
  by auto
termination
  by (relation "measure nat") auto

declare log2floor.simps [simp del]

definition exponentOf :: "rat \<Rightarrow> int" where
  "exponentOf x =
     (let (p, q) = quotient_of \<bar>x\<bar>;
          d = log2floor p - log2floor q
      in if pow2 d \<le> \<bar>x\<bar> then d else d - 1)"

definition roundHalfEven :: "rat \<Rightarrow> int" where
  "roundHalfEven q =
     (let f = \<lfloor>q\<rfloor>; r = q - of_int f
      in if r < 1 / 2 then f else if 1 / 2 < r then f + 1 else if even f then f else f + 1)"

definition infinityOf :: "rat \<Rightarrow> number" where
  "infinityOf x = (if 0 < x then PosInfinity else NegInfinity)"

definition roundToDouble :: "rat \<Rightarrow> number" where
  "roundToDouble x =
     (if x = 0 then Finite 0
      else (let e = exponentOf x in
            if 1023 < e then infinityOf x
            else (let ulp = pow2 (max e (- 1022) - 52);
                      n = roundHalfEven (\<bar>x\<bar> / ulp)
                  in if e = 1023 \<and> n = 2 ^ 53 then infinityOf x
                     else Finite (sgn x * of_int n * ulp))))"

text \<open>The operators \<^verbatim>\<open>+\<close>, \<^verbatim>\<open>-\<close>, \<^verbatim>\<open>*\<close>, \<^verbatim>\<open>/\<close> on numbers: the exact result, rounded.\<close>

definition signOf :: "number \<Rightarrow> int" where
  "signOf a = (case a of Finite x \<Rightarrow> (if x < 0 then - 1 else if 0 < x then 1 else 0)
               | PosInfinity \<Rightarrow> 1 | NegInfinity \<Rightarrow> - 1 | NaN \<Rightarrow> 0)"

definition signedInfinity :: "int \<Rightarrow> number" where
  "signedInfinity s = (if 0 < s then PosInfinity else if s < 0 then NegInfinity else NaN)"

definition numNeg :: "number \<Rightarrow> number" where
  "numNeg a = (case a of Finite x \<Rightarrow> Finite (- x) | PosInfinity \<Rightarrow> NegInfinity
               | NegInfinity \<Rightarrow> PosInfinity | NaN \<Rightarrow> NaN)"

definition numAdd :: "number \<Rightarrow> number \<Rightarrow> number" where
  "numAdd a b =
     (case (a, b) of
        (Finite x, Finite y) \<Rightarrow> roundToDouble (x + y)
      | (NaN, _) \<Rightarrow> NaN
      | (_, NaN) \<Rightarrow> NaN
      | (PosInfinity, NegInfinity) \<Rightarrow> NaN
      | (NegInfinity, PosInfinity) \<Rightarrow> NaN
      | (Finite x, w) \<Rightarrow> w
      | (w, _) \<Rightarrow> w)"

definition numSub :: "number \<Rightarrow> number \<Rightarrow> number" where
  "numSub a b = numAdd a (numNeg b)"

definition numMul :: "number \<Rightarrow> number \<Rightarrow> number" where
  "numMul a b =
     (case (a, b) of
        (Finite x, Finite y) \<Rightarrow> roundToDouble (x * y)
      | (NaN, _) \<Rightarrow> NaN
      | (_, NaN) \<Rightarrow> NaN
      | _ \<Rightarrow> signedInfinity (signOf a * signOf b))"

definition numDiv :: "number \<Rightarrow> number \<Rightarrow> number" where
  "numDiv a b =
     (case (a, b) of
        (Finite x, Finite y) \<Rightarrow>
          if y = 0 then signedInfinity (signOf a) else roundToDouble (x / y)
      | (NaN, _) \<Rightarrow> NaN
      | (_, NaN) \<Rightarrow> NaN
      | (Finite x, w) \<Rightarrow> Finite 0
      | (w, Finite y) \<Rightarrow> signedInfinity (signOf a * (if y < 0 then - 1 else 1))
      | _ \<Rightarrow> NaN)"

text \<open>The comparisons \<^verbatim>\<open><\<close> and \<^verbatim>\<open>>=\<close>: false whenever an operand is NaN.\<close>

definition numLess :: "number \<Rightarrow> number \<Rightarrow> bool" where
  "numLess a b =
     (case (a, b) of
        (Finite x, Finite y) \<Rightarrow> x < y
      | (NaN, _) \<Rightarrow> False
      | (_, NaN) \<Rightarrow> False
      | (NegInfinity, NegInfinity) \<Rightarrow> False
      | (NegInfinity, _) \<Rightarrow> True
      | (PosInfinity, _) \<Rightarrow> False
      | (Finite x, PosInfinity) \<Rightarrow> True
      | (Finite x, NegInfinity) \<Rightarrow> False)"

definition numGreaterEq :: "number \<Rightarrow> number \<Rightarrow> bool" where
  "numGreaterEq a b = (a \<noteq> NaN \<and> b \<noteq> NaN \<and> \<not> numLess a b)"

text \<open>\<^verbatim>\<open>x || 0\<close> on a number: zero and NaN are falsy.\<close>

definition orZero :: "number \<Rightarrow> number" where
  "orZero a = (if a = Finite 0 \<or> a = NaN then Finite 0 else a)"

text \<open>\<^verbatim>\<open>Math.round\<close>: the nearest integer, halves upwards; exact on a double.\<close>

definition mathRound :: "number \<Rightarrow> number" where
  "mathRound a = (case a of Finite x \<Rightarrow> Finite (of_int \<lfloor>x + 1 / 2\<rfloor>) | _ \<Rightarrow> a)"

section \<open>Data model\<close>

text \<open>
  Numbers are the doubles of the section above, dates are integer time stamps. A
  field of a JSON request body is absent (\<^verbatim>\<open>undefined\<close>), \<^verbatim>\<open>null\<close> or a value of its
  declared type; a field of a stored document is an \<open>option\<close>, \<open>None\<close> standing for
  \<^verbatim>\<open>undefined\<close> and \<^verbatim>\<open>null\<close> alike (the hooks and validators never tell the two
  apart).

  The records keep the fields that the validation, aggregation, resolution and
  projection code reads. Pass-through fields (description, brand, category, currency,
  isActive, imageUrl, sku, barcode, time stamps) are left out; requests are taken to
  carry acceptable values for them.
\<close>

datatype 'a jsfield = Absent | Null | Val 'a

text \<open>\<^verbatim>\<open>attributesValueId\<close> is one id or a list of ids; \<^verbatim>\<open>toArray\<close> coerces it to a list.\<close>

datatype valueIds = Single string | Multiple "string list"

fun toArray :: "valueIds \<Rightarrow> string list" where
  "toArray (Single v) = [v]"
| "toArray (Multiple vs) = vs"

subsection \<open>Attribute catalog\<close>

datatype attributeType = TypeText | TypeColor | TypeSize | TypeNumber | TypeSelect

record attributeValue =
  av_id :: string
  av_label :: string
  av_value :: "string option"
  av_meta :: "string option"

record attribute =
  a_id :: string
  a_name :: string
  a_code :: string
  a_type :: attributeType
  a_isActive :: bool
  a_values :: "attributeValue list"

type_synonym catalog = "attribute list"

text \<open>
  An ObjectId prints as lower-case hex (\<^verbatim>\<open>String(a._id)\<close>), and a hex string is cast to
  an ObjectId case-insensitively. \<^verbatim>\<open>Attribute.find({ _id: { $in: ids } })\<close> casts every id
  and returns the matching attributes in catalog order; the driver rejects the whole
  query (a cast error) when an id is not an ObjectId string. The model takes the 24-hex
  form, the one this API hands out and validates, as the ObjectId strings.
\<close>

definition objectIdString :: "string \<Rightarrow> string" where
  "objectIdString s = toLowerCase s"

datatype storeError = CastError | ValidationError | HookError string | DuplicateKey

definition Attribute_find :: "catalog \<Rightarrow> string list \<Rightarrow> storeError + attribute list" where
  "Attribute_find cat ids =
     (if list_all isHex24 ids
      then Inr (filter (\<lambda>a. a_id a \<in> set (map objectIdString ids)) cat)
      else Inl CastError)"

subsection \<open>Request bodies\<close>

record inputVariantValue =
  ivv_attributeId :: string
  ivv_attributesValueId :: valueIds
  ivv_stock :: "number jsfield"

record inputVariant =
  iv_price :: "number jsfield"
  iv_salePrice :: "number jsfield"
  iv_stock :: "number jsfield"
  iv_values :: "inputVariantValue list option"

text \<open>
  One record serves \<^verbatim>\<open>create\<close> and \<^verbatim>\<open>updateById\<close>; \<^verbatim>\<open>create\<close> does not read \<open>rb_id\<close>,
  \<open>rb_mainBuild\<close> and \<open>rb_category\<close>. \<open>iv_values = None\<close> is a \<^verbatim>\<open>values\<close> that is not an
  array; \<open>rb_variants = Null\<close> is a \<^verbatim>\<open>variants\<close> that is \<^verbatim>\<open>null\<close>. A missing id string
  behaves in every check as the empty string does.
\<close>

record requestBody =
  rb_id :: "string jsfield"
  rb_title :: "string jsfield"
  rb_slug :: "string jsfield"
  rb_mainAttributeId :: "string jsfield"
  rb_price :: "number jsfield"
  rb_salePrice :: "number jsfield"
  rb_offerStart :: "int jsfield"
  rb_offerEnd :: "int jsfield"
  rb_stock :: "number jsfield"
  rb_variants :: "inputVariant list jsfield"
  rb_mainBuild :: bool
  rb_category :: "string jsfield"

subsection \<open>Stored documents\<close>

record variantValue =
  vv_attributeId :: string
  vv_attributesValueId :: valueIds
  vv_stock :: "number option"

record variant =
  v_id :: string
  v_price :: "number option"
  v_salePrice :: "number option"
  v_stock :: "number option"
  v_values :: "variantValue list"

record product =
  p_id :: string
  p_title :: "string option"
  p_slug :: "string option"
  p_mainAttributeId :: "string option"
  p_price :: "number option"
  p_salePrice :: "number option"
  p_offerStart :: "int option"
  p_offerEnd :: "int option"
  p_stock :: "number option"
  p_totalStock :: number
  p_variants :: "variant list"

type_synonym store = "product list"

section \<open>The product model (product.model)\<close>

subsection \<open>Casting a body into a document\<close>

fun castField :: "'a jsfield \<Rightarrow> 'a option" where
  "castField Absent = None"
| "castField Null = None"
| "castField (Val x) = Some x"

text \<open>\<^verbatim>\<open>stock: { type: Number, min: 0, required: true, default: 0 }\<close> on a pair: the
  default fills an absent stock only.\<close>

fun castPairStock :: "number jsfield \<Rightarrow> number option" where
  "castPairStock Absent = Some (Finite 0)"
| "castPairStock Null = None"
| "castPairStock (Val x) = Some x"

definition castVariantValue :: "inputVariantValue \<Rightarrow> variantValue" where
  "castVariantValue pair =
     \<lparr> vv_attributeId = ivv_attributeId pair,
       vv_attributesValueId = ivv_attributesValueId pair,
       vv_stock = castPairStock (ivv_stock pair) \<rparr>"

definition valuesOf :: "inputVariant \<Rightarrow> inputVariantValue list" where
  "valuesOf v = (case iv_values v of Some ps \<Rightarrow> ps | None \<Rightarrow> [])"

definition castVariant :: "string \<Rightarrow> inputVariant \<Rightarrow> variant" where
  "castVariant newId v =
     \<lparr> v_id = newId,
       v_price = castField (iv_price v),
       v_salePrice = castField (iv_salePrice v),
       v_stock = castField (iv_stock v),
       v_values = map castVariantValue (valuesOf v) \<rparr>"

text \<open>Sub-document ids are generated: \<open>gen 0\<close> names a new product, \<open>gen (Suc i)\<close> the
  variant at index \<open>i\<close>.\<close>

definition castVariants :: "(nat \<Rightarrow> string) \<Rightarrow> inputVariant list \<Rightarrow> variant list" where
  "castVariants gen vs = map (\<lambda>(i, v). castVariant (gen (Suc i)) v) (zip [0..<length vs] vs)"

text \<open>The schema's string setters: \<^verbatim>\<open>title: { trim: true }\<close>,
  \<^verbatim>\<open>slug: { lowercase: true, trim: true }\<close>.\<close>

definition slugSetter :: "string \<Rightarrow> string" where
  "slugSetter s = trim (toLowerCase s)"

definition newDocument :: "(nat \<Rightarrow> string) \<Rightarrow> requestBody \<Rightarrow> product" where
  "newDocument gen body =
     \<lparr> p_id = gen 0,
       p_title = map_option trim (castField (rb_title body)),
       p_slug = map_option slugSetter (castField (rb_slug body)),
       p_mainAttributeId = castField (rb_mainAttributeId body),
       p_price = castField (rb_price body),
       p_salePrice = castField (rb_salePrice body),
       p_offerStart = castField (rb_offerStart body),
       p_offerEnd = castField (rb_offerEnd body),
       p_stock = castField (rb_stock body),
       p_totalStock = Finite 0,
       p_variants = (case rb_variants body of Val vs \<Rightarrow> castVariants gen vs | _ \<Rightarrow> []) \<rparr>"

subsection \<open>The \<^verbatim>\<open>pre("validate")\<close> hook: integrity and aggregation\<close>

text \<open>\<^verbatim>\<open>next(new Error(...))\<close> is the result \<open>Inl (HookError ...)\<close>; the messages are
  written without the quotation marks around \<^verbatim>\<open>mainAttributeId\<close>. \<^verbatim>\<open>!this.mainAttributeId\<close>
  holds for an absent and for an empty id; \<^verbatim>\<open>v.stock || 0\<close> is \<open>stockOrZero\<close>. The
  \<^verbatim>\<open>reduce\<close> adds the stocks from left to right, starting from 0, each sum rounded to a
  double.\<close>

definition variantHasMain :: "string \<Rightarrow> variant \<Rightarrow> bool" where
  "variantHasMain m v = list_ex (\<lambda>p. vv_attributeId p = m) (v_values v)"

definition stockOrZero :: "variant \<Rightarrow> number" where
  "stockOrZero v = (case v_stock v of Some s \<Rightarrow> orZero s | None \<Rightarrow> Finite 0)"

definition preValidate :: "product \<Rightarrow> storeError + product" where
  "preValidate p =
     (if p_variants p \<noteq> [] then
        (case p_mainAttributeId p of
           None \<Rightarrow> Inl (HookError ''Variant product requires mainAttributeId'')
         | Some m \<Rightarrow>
             if m = [] then Inl (HookError ''Variant product requires mainAttributeId'')
             else if \<not> list_all (variantHasMain m) (p_variants p)
             then Inl (HookError ''Every variant must include a value for mainAttributeId'')
             else Inr (p\<lparr> p_totalStock :=
                           foldl (\<lambda>sum v. numAdd sum (stockOrZero v)) (Finite 0) (p_variants p),
                         p_stock := None \<rparr>))
      else
        (case p_price p of
           None \<Rightarrow> Inl (HookError ''Simple product requires price'')
         | Some _ \<Rightarrow>
             (case p_stock p of
                None \<Rightarrow> Inl (HookError ''Simple product requires stock'')
              | Some s \<Rightarrow> Inr (p\<lparr> p_totalStock := orZero s \<rparr>))))"

subsection \<open>Schema validators\<close>

text \<open>\<^verbatim>\<open>{ type: Number, min: 0 }\<close> and \<^verbatim>\<open>{ type: Number, min: 0, required: true }\<close>: the
  \<^verbatim>\<open>min\<close> validator passes a value \<^verbatim>\<open>v\<close> with \<^verbatim>\<open>v >= 0\<close>.\<close>

definition minZero :: "number option \<Rightarrow> bool" where
  "minZero x = (case x of None \<Rightarrow> True | Some r \<Rightarrow> numGreaterEq r (Finite 0))"

definition requiredNumber :: "number option \<Rightarrow> bool" where
  "requiredNumber x = (case x of None \<Rightarrow> False | Some r \<Rightarrow> numGreaterEq r (Finite 0))"

definition requiredString :: "string option \<Rightarrow> bool" where
  "requiredString x = (case x of None \<Rightarrow> False | Some s \<Rightarrow> s \<noteq> [])"

fun validValueIds :: "valueIds \<Rightarrow> bool" where
  "validValueIds (Single v) = isHex24 v"
| "validValueIds (Multiple vs) = (vs \<noteq> [] \<and> list_all isHex24 vs)"

text \<open>The function \<^verbatim>\<open>validateVariantValue\<close> (it refuses a stock that is not a number or
  is \<^verbatim>\<open>< 0\<close>), and the validators that \<^verbatim>\<open>VariantValueSchema\<close> puts on the same fields.\<close>

definition validateVariantValue :: "variantValue \<Rightarrow> bool" where
  "validateVariantValue v =
     (isHex24 (vv_attributeId v) \<and> validValueIds (vv_attributesValueId v)
      \<and> (case vv_stock v of None \<Rightarrow> False | Some s \<Rightarrow> \<not> numLess s (Finite 0)))"

definition validVariantValueFields :: "variantValue \<Rightarrow> bool" where
  "validVariantValueFields v =
     (isHex24 (vv_attributeId v) \<and> validValueIds (vv_attributesValueId v)
      \<and> requiredNumber (vv_stock v))"

definition validVariant :: "variant \<Rightarrow> bool" where
  "validVariant v =
     (requiredNumber (v_price v) \<and> minZero (v_salePrice v) \<and> requiredNumber (v_stock v)
      \<and> v_values v \<noteq> [] \<and> list_all validateVariantValue (v_values v)
      \<and> list_all validVariantValueFields (v_values v))"

definition validMainAttributeId :: "string option \<Rightarrow> bool" where
  "validMainAttributeId x = (case x of None \<Rightarrow> True | Some s \<Rightarrow> s = [] \<or> isHex24 s)"

text \<open>The validators of the product's own fields, first those that a stored document
  is certain to satisfy: the \<^verbatim>\<open>pre("save")\<close> hook may rewrite the slug after
  validation, and touches nothing else.\<close>

definition validatedFields :: "product \<Rightarrow> bool" where
  "validatedFields p =
     (validMainAttributeId (p_mainAttributeId p)
      \<and> minZero (p_price p) \<and> minZero (p_salePrice p) \<and> minZero (p_stock p)
      \<and> list_all validVariant (p_variants p))"

definition schemaValid :: "product \<Rightarrow> bool" where
  "schemaValid p =
     (requiredString (p_title p) \<and> requiredString (p_slug p) \<and> validatedFields p)"

subsection \<open>The \<^verbatim>\<open>pre("save")\<close> hook and the write\<close>

text \<open>Mongoose validates inside its own first \<^verbatim>\<open>pre("save")\<close> hook, so the order is
  \<^verbatim>\<open>pre("validate")\<close>, the validators, the schema's \<^verbatim>\<open>pre("save")\<close>, the write. The two
  flags are \<^verbatim>\<open>isModified("title")\<close> and \<^verbatim>\<open>isModified("slug")\<close>.\<close>

definition preSave :: "bool \<Rightarrow> bool \<Rightarrow> product \<Rightarrow> product" where
  "preSave titleModified slugModified p =
     (if titleModified \<and> \<not> slugModified
      then p\<lparr> p_slug := map_option (\<lambda>t. slugSetter (slugFromTitle t)) (p_title p) \<rparr>
      else p)"

text \<open>The unique indexes: \<^verbatim>\<open>_id\<close> and \<^verbatim>\<open>slug\<close>. A collision is error code 11000.\<close>

definition insertDoc :: "store \<Rightarrow> product \<Rightarrow> storeError + store" where
  "insertDoc st p =
     (if list_ex (\<lambda>q. p_id q = p_id p \<or> p_slug q = p_slug p) st
      then Inl DuplicateKey else Inr (st @ [p]))"

definition replaceDoc :: "store \<Rightarrow> product \<Rightarrow> storeError + store" where
  "replaceDoc st p =
     (if list_ex (\<lambda>q. p_id q \<noteq> p_id p \<and> p_slug q = p_slug p) st
      then Inl DuplicateKey
      else Inr (map (\<lambda>q. if p_id q = p_id p then p else q) st))"

text \<open>\<^verbatim>\<open>doc.save()\<close>; \<open>write\<close> is the insert of a new document or the replacement of a
  loaded one. The result is the document as written and the new store. The validators
  are run on the whole document: Mongoose runs them on the required and the modified
  paths, the other paths holding the values validated when they were written.\<close>

definition saveDoc ::
  "(store \<Rightarrow> product \<Rightarrow> storeError + store) \<Rightarrow> bool \<Rightarrow> bool \<Rightarrow> store \<Rightarrow> product
     \<Rightarrow> storeError + (product \<times> store)" where
  "saveDoc write titleModified slugModified st p =
     (case preValidate p of
        Inl e \<Rightarrow> Inl e
      | Inr p1 \<Rightarrow>
          if \<not> schemaValid p1 then Inl ValidationError
          else (let p2 = preSave titleModified slugModified p1
                in case write st p2 of
                     Inl e \<Rightarrow> Inl e
                   | Inr st' \<Rightarrow> Inr (p2, st')))"

text \<open>\<^verbatim>\<open>Product.create(payload)\<close>: a new document; every path the payload sets counts
  as modified.\<close>

definition Product_create ::
  "(nat \<Rightarrow> string) \<Rightarrow> store \<Rightarrow> requestBody \<Rightarrow> storeError + (product \<times> store)" where
  "Product_create gen st body =
     (let p = newDocument gen body
      in saveDoc insertDoc (p_title p \<noteq> None) (p_slug p \<noteq> None) st p)"

subsection \<open>Virtuals: effective price and discount\<close>

text \<open>The getters take the current time \<^verbatim>\<open>new Date()\<close> as \<open>now\<close>. The discount is
  \<^verbatim>\<open>Math.round(((base - eff) / base) * 100)\<close>, each operation on doubles.\<close>

definition inWindow :: "product \<Rightarrow> int \<Rightarrow> bool" where
  "inWindow p now =
     ((case p_offerStart p of None \<Rightarrow> True | Some s \<Rightarrow> s \<le> now)
      \<and> (case p_offerEnd p of None \<Rightarrow> True | Some e \<Rightarrow> e \<ge> now))"

definition effectivePrice :: "product \<Rightarrow> int \<Rightarrow> number option" where
  "effectivePrice p now =
     (case p_salePrice p of
        Some s \<Rightarrow> if inWindow p now then Some s else p_price p
      | None \<Rightarrow> p_price p)"

definition discountPercent :: "product \<Rightarrow> int \<Rightarrow> number" where
  "discountPercent p now =
     (case (p_price p, effectivePrice p now) of
        (Some base, Some eff) \<Rightarrow>
          if numLess (Finite 0) base \<and> numLess eff base
          then mathRound (numMul (numDiv (numSub base eff) base) (Finite 100))
          else Finite 0
      | _ \<Rightarrow> Finite 0)"

section \<open>The admin product controller\<close>

subsection \<open>Responses\<close>

text \<open>The 400 responses, one constructor per message, with the structured fields the
  response carries.\<close>

datatype badRequest =
    SimpleRequiresPrice
  | SimpleRequiresStock
  | VariantShape
  | InvalidAttributeId string
  | InvalidValueIds string
  | InvalidPairStock
  | UnknownAttributeIds "string list"
  | AttributeNotLoaded string
  | ValuesNotDefined string "string list"
  | MainAttributeRequired
  | MainAttributeNotHex
  | MainAttributeNotUsed
  | VariantWithoutMain nat string
  | InvalidProductId
  | MainBuildUnsupported
  | InvalidCategory
  | VariantsNotArray
  | IdsRequired
  | NoValidIds

record resolvedAttribute =
  ra_id :: string
  ra_name :: "string option"
  ra_code :: "string option"
  ra_type :: "attributeType option"
  ra_isActive :: "bool option"

record resolvedValue =
  rv_id :: string
  rv_label :: "string option"
  rv_value :: "string option"
  rv_meta :: "string option"

record resolvedPair =
  rp_attribute :: resolvedAttribute
  rp_values :: "resolvedValue list"
  rp_stock :: "number option"

record resolvedVariant =
  rvar_id :: string
  rvar_price :: "number option"
  rvar_salePrice :: "number option"
  rvar_stock :: "number option"
  rvar_attributesResolved :: "resolvedPair list"

text \<open>\<open>res_flat\<close> is the stored document, sent without its raw variants. The document
  is read with \<^verbatim>\<open>lean()\<close>, so a variant has no virtuals and the projection sends the
  constants \<^verbatim>\<open>effectivePrice: null\<close> and \<^verbatim>\<open>discountPercent: 0\<close> for it; the two are
  left out of the record.\<close>

record resolvedProduct =
  res_flat :: product
  res_variants :: "resolvedVariant list"

datatype response =
    Created product
  | Updated product
  | Resolved resolvedProduct
  | Deleted "string list" nat
  | BadRequest badRequest
  | NotFound
  | Conflict
  | InternalError

text \<open>The \<^verbatim>\<open>catch\<close> block of \<^verbatim>\<open>create\<close> and \<^verbatim>\<open>updateById\<close>: error code 11000 is a
  conflict (409), anything else the generic failure (500).\<close>

fun catchStoreError :: "storeError \<Rightarrow> response" where
  "catchStoreError DuplicateKey = Conflict"
| "catchStoreError e = InternalError"

subsection \<open>Create: variant validation\<close>

text \<open>The first element of a list on which a check reports a failure: a \<^verbatim>\<open>for\<close> loop
  whose body returns on the first violation.\<close>

fun firstFailure :: "('a \<Rightarrow> 'e option) \<Rightarrow> 'a list \<Rightarrow> 'e option" where
  "firstFailure check [] = None"
| "firstFailure check (x # xs) =
     (case check x of Some e \<Rightarrow> Some e | None \<Rightarrow> firstFailure check xs)"

text \<open>\<^verbatim>\<open>typeof v.price === "number" && typeof v.stock === "number" &&
  Array.isArray(v.values) && v.values.length > 0\<close>.\<close>

fun isNumber :: "number jsfield \<Rightarrow> bool" where
  "isNumber (Val x) = True"
| "isNumber _ = False"

definition variantShapeOk :: "inputVariant \<Rightarrow> bool" where
  "variantShapeOk v =
     (isNumber (iv_price v) \<and> isNumber (iv_stock v)
      \<and> (case iv_values v of Some ps \<Rightarrow> ps \<noteq> [] | None \<Rightarrow> False))"

text \<open>The checks on one pair, in the order of the first nested loop. (The
  \<^verbatim>\<open>imageUrl\<close> test cannot fail on a string or absent \<^verbatim>\<open>imageUrl\<close>.)\<close>

definition checkPairShape :: "inputVariantValue \<Rightarrow> badRequest option" where
  "checkPairShape pair =
     (if \<not> isHex24 (ivv_attributeId pair) then Some (InvalidAttributeId (ivv_attributeId pair))
      else if toArray (ivv_attributesValueId pair) = []
              \<or> \<not> list_all isHex24 (toArray (ivv_attributesValueId pair))
           then Some (InvalidValueIds (ivv_attributeId pair))
      else (case ivv_stock pair of
              Val s \<Rightarrow> if numLess s (Finite 0) then Some InvalidPairStock else None
            | _ \<Rightarrow> Some InvalidPairStock))"

text \<open>The pairs of all variants, in loop order.\<close>

definition allPairs :: "inputVariant list \<Rightarrow> inputVariantValue list" where
  "allPairs vs = concat (map valuesOf vs)"

text \<open>\<^verbatim>\<open>Array.from(new Set(xs))\<close>: the distinct elements in order of first occurrence.\<close>

definition distinctInOrder :: "'a list \<Rightarrow> 'a list" where
  "distinctInOrder xs = foldl (\<lambda>acc x. if x \<in> set acc then acc else acc @ [x]) [] xs"

definition allAttrIdsOf :: "inputVariant list \<Rightarrow> string list" where
  "allAttrIdsOf vs = distinctInOrder (map ivv_attributeId (allPairs vs))"

text \<open>\<^verbatim>\<open>valuesByAttr\<close>: attribute id to the set of its value ids; a later \<^verbatim>\<open>Map.set\<close>
  replaces an earlier entry.\<close>

definition valuesByAttr :: "attribute list \<Rightarrow> string \<Rightarrow> string set option" where
  "valuesByAttr attrs =
     foldl (\<lambda>m a. m(a_id a \<mapsto> set (map av_id (a_values a)))) Map.empty attrs"

text \<open>The check of one pair in the second nested loop: the value ids of the pair that
  the attribute does not define, all of them, in request order.\<close>

definition checkPairValues ::
  "(string \<Rightarrow> string set option) \<Rightarrow> inputVariantValue \<Rightarrow> badRequest option" where
  "checkPairValues vba pair =
     (case vba (ivv_attributeId pair) of
        None \<Rightarrow> Some (AttributeNotLoaded (ivv_attributeId pair))
      | Some allowed \<Rightarrow>
          (let bad = filter (\<lambda>vid. vid \<notin> allowed) (toArray (ivv_attributesValueId pair))
           in if bad \<noteq> [] then Some (ValuesNotDefined (ivv_attributeId pair) bad) else None))"

subsection \<open>Create: main attribute\<close>

text \<open>\<^verbatim>\<open>!payload.mainAttributeId\<close> holds for an absent, null or empty id.\<close>

fun truthyString :: "string jsfield \<Rightarrow> bool" where
  "truthyString (Val s) = (s \<noteq> [])"
| "truthyString _ = False"

definition decideMainAttribute :: "string list \<Rightarrow> string jsfield \<Rightarrow> badRequest + string" where
  "decideMainAttribute allAttrIds main =
     (case allAttrIds of
        [a] \<Rightarrow> Inr a
      | _ \<Rightarrow>
          (case main of
             Val m \<Rightarrow>
               if m = [] then Inl MainAttributeRequired
               else if \<not> isHex24 m then Inl MainAttributeNotHex
               else if m \<notin> set allAttrIds then Inl MainAttributeNotUsed
               else Inr m
           | _ \<Rightarrow> Inl MainAttributeRequired))"

text \<open>\<^verbatim>\<open>for (const [idx, v] of variants.entries())\<close>: the first variant, with its index,
  that has no pair for the main attribute.\<close>

definition checkEveryVariantHasMain :: "string \<Rightarrow> inputVariant list \<Rightarrow> badRequest option" where
  "checkEveryVariantHasMain m vs =
     firstFailure
       (\<lambda>(idx, v). if list_ex (\<lambda>p. ivv_attributeId p = m) (valuesOf v) then None
                    else Some (VariantWithoutMain idx m))
       (zip [0..<length vs] vs)"

text \<open>Main-attribute resolution as a whole (decision, then the per-variant check).\<close>

definition resolveMainAttribute ::
  "string jsfield \<Rightarrow> inputVariant list \<Rightarrow> badRequest + string" where
  "resolveMainAttribute main vs =
     (case decideMainAttribute (allAttrIdsOf vs) main of
        Inl e \<Rightarrow> Inl e
      | Inr m \<Rightarrow>
          (case checkEveryVariantHasMain m vs of Some e \<Rightarrow> Inl e | None \<Rightarrow> Inr m))"

subsection \<open>Create\<close>

text \<open>\<^verbatim>\<open>if (payload.slug) payload.slug = ...\<close>: a non-empty slug is normalised.\<close>

definition normalizePayloadSlug :: "requestBody \<Rightarrow> requestBody" where
  "normalizePayloadSlug body =
     (case rb_slug body of
        Val s \<Rightarrow> if s \<noteq> [] then body\<lparr> rb_slug := Val (normalizeSlug s) \<rparr> else body
      | _ \<Rightarrow> body)"

text \<open>\<^verbatim>\<open>cleanedVariants\<close>: the variants rebuilt from their known fields.\<close>

definition cleanVariant :: "inputVariant \<Rightarrow> inputVariant" where
  "cleanVariant v =
     \<lparr> iv_price = iv_price v, iv_salePrice = iv_salePrice v, iv_stock = iv_stock v,
       iv_values = Some (map (\<lambda>p. \<lparr> ivv_attributeId = ivv_attributeId p,
                                     ivv_attributesValueId = ivv_attributesValueId p,
                                     ivv_stock = ivv_stock p \<rparr>) (valuesOf v)) \<rparr>"

definition persistNew ::
  "(nat \<Rightarrow> string) \<Rightarrow> store \<Rightarrow> requestBody \<Rightarrow> response \<times> store" where
  "persistNew gen st toSave =
     (case Product_create gen st toSave of
        Inl e \<Rightarrow> (catchStoreError e, st)
      | Inr (p, st') \<Rightarrow> (Created p, st'))"

text \<open>The variant branch of \<^verbatim>\<open>create\<close>, from the shape test to \<^verbatim>\<open>Product.create(toSave)\<close>.\<close>

definition createWithVariants ::
  "(nat \<Rightarrow> string) \<Rightarrow> catalog \<Rightarrow> store \<Rightarrow> requestBody \<Rightarrow> inputVariant list
     \<Rightarrow> response \<times> store" where
  "createWithVariants gen cat st payload variants =
     (if \<not> list_all variantShapeOk variants then (BadRequest VariantShape, st)
      else case firstFailure checkPairShape (allPairs variants) of
        Some e \<Rightarrow> (BadRequest e, st)
      | None \<Rightarrow>
          (let allAttrIds = allAttrIdsOf variants in
           case Attribute_find cat allAttrIds of
             Inl e \<Rightarrow> (catchStoreError e, st)
           | Inr attrs \<Rightarrow>
               (let missing = filter (\<lambda>i. i \<notin> set (map a_id attrs)) allAttrIds in
                if missing \<noteq> [] then (BadRequest (UnknownAttributeIds missing), st)
                else case firstFailure (checkPairValues (valuesByAttr attrs)) (allPairs variants) of
                  Some e \<Rightarrow> (BadRequest e, st)
                | None \<Rightarrow>
                    (case resolveMainAttribute (rb_mainAttributeId payload) variants of
                       Inl e \<Rightarrow> (BadRequest e, st)
                     | Inr m \<Rightarrow>
                         persistNew gen st
                           (payload\<lparr> rb_mainAttributeId := Val m,
                                     rb_variants := Val (map cleanVariant variants) \<rparr>)))))"

definition create ::
  "(nat \<Rightarrow> string) \<Rightarrow> catalog \<Rightarrow> store \<Rightarrow> requestBody \<Rightarrow> response \<times> store" where
  "create gen cat st body =
     (let payload = normalizePayloadSlug body in
      case rb_variants payload of
        Val (v # vs) \<Rightarrow> createWithVariants gen cat st payload (v # vs)
      | _ \<Rightarrow>
          if \<not> isNumber (rb_price payload) then (BadRequest SimpleRequiresPrice, st)
          else if \<not> isNumber (rb_stock payload) then (BadRequest SimpleRequiresStock, st)
          else persistNew gen st payload)"

subsection \<open>Get one: the resolution projection\<close>

text \<open>\<^verbatim>\<open>attrById\<close> and \<^verbatim>\<open>valByAttrId\<close>, built by \<^verbatim>\<open>Map.set\<close> in one pass over the fetched
  attributes.\<close>

definition attributeInfo :: "attribute \<Rightarrow> resolvedAttribute" where
  "attributeInfo a =
     \<lparr> ra_id = a_id a, ra_name = Some (a_name a), ra_code = Some (a_code a),
       ra_type = Some (a_type a), ra_isActive = Some (a_isActive a) \<rparr>"

definition valueInfo :: "attributeValue \<Rightarrow> resolvedValue" where
  "valueInfo v =
     \<lparr> rv_id = av_id v, rv_label = Some (av_label v), rv_value = av_value v,
       rv_meta = av_meta v \<rparr>"

definition attrById :: "attribute list \<Rightarrow> string \<Rightarrow> resolvedAttribute option" where
  "attrById attrs = foldl (\<lambda>m a. m(a_id a \<mapsto> attributeInfo a)) Map.empty attrs"

definition valueMap :: "attributeValue list \<Rightarrow> string \<Rightarrow> resolvedValue option" where
  "valueMap vals = foldl (\<lambda>m v. m(av_id v \<mapsto> valueInfo v)) Map.empty vals"

definition valByAttrId ::
  "attribute list \<Rightarrow> string \<Rightarrow> (string \<Rightarrow> resolvedValue option) option" where
  "valByAttrId attrs = foldl (\<lambda>m a. m(a_id a \<mapsto> valueMap (a_values a))) Map.empty attrs"

text \<open>The placeholders substituted for an attribute or a value that is not found.\<close>

definition placeholderAttribute :: "string \<Rightarrow> resolvedAttribute" where
  "placeholderAttribute aid =
     \<lparr> ra_id = aid, ra_name = None, ra_code = None, ra_type = None, ra_isActive = None \<rparr>"

definition placeholderValue :: "string \<Rightarrow> resolvedValue" where
  "placeholderValue vid = \<lparr> rv_id = vid, rv_label = None, rv_value = None, rv_meta = None \<rparr>"

definition resolveValue ::
  "(string \<Rightarrow> (string \<Rightarrow> resolvedValue option) option) \<Rightarrow> string \<Rightarrow> string \<Rightarrow> resolvedValue" where
  "resolveValue vmaps aid vid =
     (case vmaps aid of
        None \<Rightarrow> placeholderValue vid
      | Some vmap \<Rightarrow> (case vmap vid of None \<Rightarrow> placeholderValue vid | Some r \<Rightarrow> r))"

definition resolvePair ::
  "(string \<Rightarrow> resolvedAttribute option)
     \<Rightarrow> (string \<Rightarrow> (string \<Rightarrow> resolvedValue option) option) \<Rightarrow> variantValue \<Rightarrow> resolvedPair" where
  "resolvePair amap vmaps pair =
     \<lparr> rp_attribute =
         (case amap (vv_attributeId pair) of
            None \<Rightarrow> placeholderAttribute (vv_attributeId pair)
          | Some info \<Rightarrow> info),
       rp_values =
         map (resolveValue vmaps (vv_attributeId pair)) (toArray (vv_attributesValueId pair)),
       rp_stock = vv_stock pair \<rparr>"

definition resolveVariant ::
  "(string \<Rightarrow> resolvedAttribute option)
     \<Rightarrow> (string \<Rightarrow> (string \<Rightarrow> resolvedValue option) option) \<Rightarrow> variant \<Rightarrow> resolvedVariant" where
  "resolveVariant amap vmaps v =
     \<lparr> rvar_id = v_id v, rvar_price = v_price v, rvar_salePrice = v_salePrice v,
       rvar_stock = v_stock v,
       rvar_attributesResolved = map (resolvePair amap vmaps) (v_values v) \<rparr>"

text \<open>The body of \<^verbatim>\<open>getOne\<close> once the product is loaded: collect the attribute ids,
  fetch them in one query (none when there is no id), build the maps, expand.\<close>

definition resolveProduct :: "catalog \<Rightarrow> product \<Rightarrow> response" where
  "resolveProduct cat p =
     (let attrIds = distinctInOrder (map vv_attributeId (concat (map v_values (p_variants p)))) in
      case (if attrIds \<noteq> [] then Attribute_find cat attrIds else Inr []) of
        Inl e \<Rightarrow> InternalError
      | Inr attributes \<Rightarrow>
          Resolved \<lparr> res_flat = p,
                     res_variants =
                       map (resolveVariant (attrById attributes) (valByAttrId attributes))
                         (p_variants p) \<rparr>)"

text \<open>\<^verbatim>\<open>Product.findOne({ _id: id })\<close>: the id is cast like any ObjectId.\<close>

definition Product_findById :: "store \<Rightarrow> string \<Rightarrow> storeError + product option" where
  "Product_findById st i =
     (if isHex24 i then Inr (find (\<lambda>p. p_id p = objectIdString i) st) else Inl CastError)"

definition getOne :: "catalog \<Rightarrow> store \<Rightarrow> string \<Rightarrow> response" where
  "getOne cat st i =
     (case Product_findById st i of
        Inl e \<Rightarrow> InternalError
      | Inr None \<Rightarrow> NotFound
      | Inr (Some p) \<Rightarrow> resolveProduct cat p)"

subsection \<open>Update by id\<close>

text \<open>\<^verbatim>\<open>mongoose.isValidObjectId\<close>, read as the 24-hex test that the controller's own
  message names (\<^verbatim>\<open>Valid 'id' (24-hex ObjectId) is required\<close>).\<close>

definition isValidObjectId :: "string \<Rightarrow> bool" where
  "isValidObjectId s = isHex24 s"

text \<open>\<^verbatim>\<open>if (typeof body[k] !== "undefined") product[k] = body[k]\<close>.\<close>

fun assignField :: "'a jsfield \<Rightarrow> 'a option \<Rightarrow> 'a option" where
  "assignField Absent old = old"
| "assignField Null old = None"
| "assignField (Val x) old = Some x"

text \<open>An assigned title passes through the schema's \<^verbatim>\<open>trim\<close> setter.\<close>

fun trimField :: "string jsfield \<Rightarrow> string jsfield" where
  "trimField (Val t) = Val (trim t)"
| "trimField f = f"

definition assignFields :: "requestBody \<Rightarrow> product \<Rightarrow> product" where
  "assignFields body p =
     p\<lparr> p_title := assignField (trimField (rb_title body)) (p_title p),
        p_price := assignField (rb_price body) (p_price p),
        p_salePrice := assignField (rb_salePrice body) (p_salePrice p),
        p_offerStart := assignField (rb_offerStart body) (p_offerStart p),
        p_offerEnd := assignField (rb_offerEnd body) (p_offerEnd p),
        p_stock := assignField (rb_stock body) (p_stock p),
        p_mainAttributeId := assignField (rb_mainAttributeId body) (p_mainAttributeId p) \<rparr>"

text \<open>\<^verbatim>\<open>typeof body.slug !== "undefined" && String(body.slug).trim()\<close>; \<^verbatim>\<open>String(null)\<close> is
  the string \<^verbatim>\<open>null\<close>.\<close>

definition assignSlug :: "requestBody \<Rightarrow> product \<Rightarrow> product" where
  "assignSlug body p =
     (case rb_slug body of
        Absent \<Rightarrow> p
      | Null \<Rightarrow> p\<lparr> p_slug := Some (slugSetter (normalizeSlug ''null'')) \<rparr>
      | Val s \<Rightarrow> if trim s \<noteq> [] then p\<lparr> p_slug := Some (slugSetter (normalizeSlug s)) \<rparr> else p)"

definition categoryAccepted :: "string jsfield \<Rightarrow> bool" where
  "categoryAccepted c =
     (case c of Absent \<Rightarrow> True | Null \<Rightarrow> True | Val s \<Rightarrow> s \<noteq> [] \<and> isValidObjectId s)"

definition updateById ::
  "(nat \<Rightarrow> string) \<Rightarrow> store \<Rightarrow> requestBody \<Rightarrow> response \<times> store" where
  "updateById gen st body =
     (case rb_id body of
        Val i \<Rightarrow>
          if \<not> isValidObjectId i then (BadRequest InvalidProductId, st)
          else (case Product_findById st i of
                  Inl e \<Rightarrow> (catchStoreError e, st)
                | Inr None \<Rightarrow> (NotFound, st)
                | Inr (Some product) \<Rightarrow>
                    if rb_mainBuild body then (BadRequest MainBuildUnsupported, st)
                    else
                      (let p1 = assignSlug body (assignFields body product) in
                       if \<not> categoryAccepted (rb_category body) then (BadRequest InvalidCategory, st)
                       else case rb_variants body of
                         Null \<Rightarrow> (BadRequest VariantsNotArray, st)
                       | vf \<Rightarrow>
                           (let p2 = (case vf of
                                        Val vs \<Rightarrow> p1\<lparr> p_variants := castVariants gen vs \<rparr>
                                      | _ \<Rightarrow> p1)
                            in case saveDoc replaceDoc (p_title p2 \<noteq> p_title product)
                                      (p_slug p2 \<noteq> p_slug product) st p2 of
                                 Inl e \<Rightarrow> (catchStoreError e, st)
                               | Inr (p3, st') \<Rightarrow> (Updated p3, st'))))
      | _ \<Rightarrow> (BadRequest InvalidProductId, st))"

subsection \<open>Bulk delete\<close>

text \<open>\<^verbatim>\<open>Product.deleteMany({ _id: { $in: objectIds } })\<close>: one batch operation; the result
  is the number of documents removed and the new store.\<close>

definition Product_deleteMany :: "store \<Rightarrow> string list \<Rightarrow> nat \<times> store" where
  "Product_deleteMany st objectIds =
     (length (filter (\<lambda>p. p_id p \<in> set objectIds) st),
      filter (\<lambda>p. p_id p \<notin> set objectIds) st)"

text \<open>A body whose \<^verbatim>\<open>ids\<close> is not an array is answered as the empty list is.\<close>

definition bulkDelete :: "store \<Rightarrow> string list \<Rightarrow> response \<times> store" where
  "bulkDelete st ids =
     (if ids = [] then (BadRequest IdsRequired, st)
      else (let validIds = filter isHex24 ids in
            if validIds = [] then (BadRequest NoValidIds, st)
            else (let objectIds = map objectIdString validIds;
                      (deletedCount, st') = Product_deleteMany st objectIds
                  in (Deleted validIds deletedCount, st'))))"

section \<open>Properties of stored products\<close>

text \<open>The stocks of the variants, in order, and their sum as the machine forms it:
  from left to right, starting from 0, every partial sum rounded to a double.\<close>

definition variantStocks :: "product \<Rightarrow> number list" where
  "variantStocks p = List.map_filter v_stock (p_variants p)"

definition machineSum :: "number list \<Rightarrow> number" where
  "machineSum xs = foldl numAdd (Finite 0) xs"

text \<open>Total stock is correct for the product's mode: a simple product carries its own
  stock; a product with variants carries the machine sum of its variants' stocks (each
  of them a number) and no stock of its own.\<close>

definition totalStockCorrect :: "product \<Rightarrow> bool" where
  "totalStockCorrect p =
     (if p_variants p = [] then p_stock p = Some (p_totalStock p)
      else p_totalStock p = machineSum (variantStocks p)
           \<and> list_all (\<lambda>v. v_stock v \<noteq> None) (p_variants p)
           \<and> p_stock p = None)"

text \<open>Following the words of the claim on total stock: the sum of the variants' stocks
  as a sum of mathematics. Stocks are whole when each is a non-negative integer.\<close>

definition finiteValue :: "number \<Rightarrow> rat" where
  "finiteValue a = (case a of Finite x \<Rightarrow> x | _ \<Rightarrow> 0)"

definition exactStockSum :: "product \<Rightarrow> rat" where
  "exactStockSum p = sum_list (map finiteValue (variantStocks p))"

definition wholeNumber :: "number \<Rightarrow> bool" where
  "wholeNumber a = (case a of Finite x \<Rightarrow> 0 \<le> x \<and> of_int \<lfloor>x\<rfloor> = x | _ \<Rightarrow> False)"

definition wholeStocks :: "product \<Rightarrow> bool" where
  "wholeStocks p = list_all wholeNumber (variantStocks p)"

text \<open>A product with variants names a main attribute, and every variant has a pair
  for it.\<close>

definition mainAttributePresent :: "product \<Rightarrow> bool" where
  "mainAttributePresent p =
     (p_variants p = []
      \<or> (case p_mainAttributeId p of
            None \<Rightarrow> False
          | Some m \<Rightarrow> m \<noteq> [] \<and> list_all (variantHasMain m) (p_variants p)))"

text \<open>The responses by which main-attribute resolution fails.\<close>

fun mainAttributeFailure :: "response \<Rightarrow> bool" where
  "mainAttributeFailure (BadRequest MainAttributeRequired) = True"
| "mainAttributeFailure (BadRequest MainAttributeNotHex) = True"
| "mainAttributeFailure (BadRequest MainAttributeNotUsed) = True"
| "mainAttributeFailure (BadRequest (VariantWithoutMain idx m)) = True"
| "mainAttributeFailure r = False"

text \<open>Following the words of validation step 5 ("collect all violations per attribute"):
  the value ids referenced by the pairs of one attribute, over all variants, that the
  attribute's value set does not hold.\<close>

definition offendingValueIds :: "catalog \<Rightarrow> inputVariant list \<Rightarrow> string \<Rightarrow> string list" where
  "offendingValueIds cat vs a =
     filter (\<lambda>vid. \<not> list_ex (\<lambda>attr. a_id attr = a \<and> vid \<in> set (map av_id (a_values attr))) cat)
       (concat (map (\<lambda>p. toArray (ivv_attributesValueId p))
                    (filter (\<lambda>p. ivv_attributeId p = a) (allPairs vs))))"

text \<open>The value ids of one pair that the catalog's attribute of the pair's attribute
  id does not define, in request order. The offending value ids of an attribute are
  those of its pairs, one pair after the other.\<close>

definition pairOffendingIds :: "catalog \<Rightarrow> inputVariantValue \<Rightarrow> string list" where
  "pairOffendingIds cat pair =
     filter (\<lambda>vid. \<not> list_ex (\<lambda>attr. a_id attr = ivv_attributeId pair
                                  \<and> vid \<in> set (map av_id (a_values attr))) cat)
       (toArray (ivv_attributesValueId pair))"

text \<open>A catalog as the database holds it: the attribute ids are distinct, and each is
  the string of an ObjectId. The attributes of a request are known when the catalog
  holds an attribute for every pair.\<close>

definition catalogIds :: "catalog \<Rightarrow> bool" where
  "catalogIds cat =
     (distinct (map a_id cat) \<and> list_all (\<lambda>a. objectIdString (a_id a) = a_id a) cat)"

definition attributesKnown :: "catalog \<Rightarrow> inputVariant list \<Rightarrow> bool" where
  "attributesKnown cat vs =
     list_all (\<lambda>q. list_ex (\<lambda>a. a_id a = ivv_attributeId q) cat) (allPairs vs)"

text \<open>Following the words of the pricing rule: the offer window \<open>[offerStart, offerEnd]\<close>,
  open-ended at an absent bound; the nearest integer, a half going up; the discount as
  the rounded percentage by which the effective price lies under the price, once with
  the operations of the machine and once with those of mathematics.\<close>

definition offerWindow :: "product \<Rightarrow> int set" where
  "offerWindow p =
     {t. (case p_offerStart p of None \<Rightarrow> True | Some s \<Rightarrow> s \<le> t)}
     \<inter> {t. (case p_offerEnd p of None \<Rightarrow> True | Some e \<Rightarrow> t \<le> e)}"

definition specEffectivePrice :: "product \<Rightarrow> int \<Rightarrow> number option" where
  "specEffectivePrice p now =
     (if p_salePrice p \<noteq> None \<and> now \<in> offerWindow p then p_salePrice p else p_price p)"

definition nearestInteger :: "rat \<Rightarrow> int" where
  "nearestInteger x = (if x - of_int \<lfloor>x\<rfloor> < 1 / 2 then \<lfloor>x\<rfloor> else \<lfloor>x\<rfloor> + 1)"

definition specDiscountPercent :: "product \<Rightarrow> int \<Rightarrow> number" where
  "specDiscountPercent p now =
     (case (p_price p, specEffectivePrice p now) of
        (Some price, Some eff) \<Rightarrow>
          if numLess eff price
          then (case numMul (numDiv (numSub price eff) price) (Finite 100) of
                  Finite x \<Rightarrow> Finite (of_int (nearestInteger x))
                | w \<Rightarrow> w)
          else Finite 0
      | _ \<Rightarrow> Finite 0)"

definition exactDiscountPercent :: "product \<Rightarrow> int \<Rightarrow> int" where
  "exactDiscountPercent p now =
     (case (p_price p, specEffectivePrice p now) of
        (Some (Finite price), Some (Finite eff)) \<Rightarrow>
          if eff < price then nearestInteger ((price - eff) / price * 100) else 0
      | _ \<Rightarrow> 0)"

text \<open>What the projection owes to each stored reference. A value id is resolved in
  place: its record carries the id, and is the placeholder when no catalog attribute of
  that id defines the value. A pair is resolved in place: its attribute record carries
  the attribute id, and is the placeholder when the catalog has no attribute of that
  id; its value ids are resolved one by one, none dropped.\<close>

definition valueResolved :: "catalog \<Rightarrow> string \<Rightarrow> string \<Rightarrow> resolvedValue \<Rightarrow> bool" where
  "valueResolved cat aid vid r =
     (rv_id r = vid
      \<and> (list_ex (\<lambda>a. a_id a = aid \<and> list_ex (\<lambda>v. av_id v = vid) (a_values a)) cat
          \<or> r = placeholderValue vid))"

definition pairResolved :: "catalog \<Rightarrow> variantValue \<Rightarrow> resolvedPair \<Rightarrow> bool" where
  "pairResolved cat pair r =
     (ra_id (rp_attribute r) = vv_attributeId pair
      \<and> (list_ex (\<lambda>a. a_id a = vv_attributeId pair) cat
          \<or> rp_attribute r = placeholderAttribute (vv_attributeId pair))
      \<and> list_all2 (valueResolved cat (vv_attributeId pair))
            (toArray (vv_attributesValueId pair)) (rp_values r))"

definition variantResolved :: "catalog \<Rightarrow> variant \<Rightarrow> resolvedVariant \<Rightarrow> bool" where
  "variantResolved cat v r =
     (rvar_id r = v_id v
      \<and> list_all2 (pairResolved cat) (v_values v) (rvar_attributesResolved r))"

section \<open>Auxiliary notions for the proofs\<close>

text \<open>The shape of a normalised slug: characters of \<^verbatim>\<open>[a-z0-9-]\<close>, no two hyphens in a
  row, no hyphen at either end.\<close>

definition isSlugChar :: "char \<Rightarrow> bool" where
  "isSlugChar c = (isAlnum c \<or> c = CHR ''-'')"

fun noDoubleHyphen :: "string \<Rightarrow> bool" where
  "noDoubleHyphen [] = True"
| "noDoubleHyphen (c # cs) =
     ((c \<noteq> CHR ''-'' \<or> cs = [] \<or> hd cs \<noteq> CHR ''-'') \<and> noDoubleHyphen cs)"

definition slugShaped :: "string \<Rightarrow> bool" where
  "slugShaped t =
     (list_all isSlugChar t \<and> noDoubleHyphen t
      \<and> (t = [] \<or> (hd t \<noteq> CHR ''-'' \<and> last t \<noteq> CHR ''-'')))"

section \<open>Example data\<close>

text \<open>The catalog and the requests of the route documentation: a Size attribute with
  the values S and M, a Color attribute with the values Black and Red.\<close>

definition sizeId :: string where "sizeId = ''68ba88ce54d06434d762e2b2''"
definition sizeS :: string where "sizeS = ''68c506aeda9147540db9b476''"
definition sizeM :: string where "sizeM = ''68ba88ce54d06434d762e2b5''"
definition colorId :: string where "colorId = ''68b9d650e9f857534e61dc7d''"
definition colorBlack :: string where "colorBlack = ''68b9d650e9f857534e61dc7e''"
definition colorRed :: string where "colorRed = ''68c552b6b15a257696f56cd7''"

definition exCatalog :: catalog where
  "exCatalog =
     [\<lparr> a_id = sizeId, a_name = ''Size'', a_code = ''size'', a_type = TypeSize,
        a_isActive = True,
        a_values = [\<lparr> av_id = sizeS, av_label = ''S'', av_value = None, av_meta = None \<rparr>,
                    \<lparr> av_id = sizeM, av_label = ''M'', av_value = None, av_meta = None \<rparr>] \<rparr>,
      \<lparr> a_id = colorId, a_name = ''Color'', a_code = ''color'', a_type = TypeColor,
        a_isActive = True,
        a_values = [\<lparr> av_id = colorBlack, av_label = ''Black'', av_value = None, av_meta = None \<rparr>,
                    \<lparr> av_id = colorRed, av_label = ''Red'', av_value = None, av_meta = None \<rparr>] \<rparr>]"

definition exGen :: "nat \<Rightarrow> string" where
  "exGen n =
     (if n = 0 then ''68c709d4e1e28a7c7730c241''
      else if n = 1 then ''68c709d4e1e28a7c7730c242''
      else ''68c709d4e1e28a7c7730c243'')"

definition emptyBody :: requestBody where
  "emptyBody =
     \<lparr> rb_id = Absent, rb_title = Absent, rb_slug = Absent, rb_mainAttributeId = Absent,
       rb_price = Absent, rb_salePrice = Absent, rb_offerStart = Absent, rb_offerEnd = Absent,
       rb_stock = Absent, rb_variants = Absent, rb_mainBuild = False, rb_category = Absent \<rparr>"

definition exPair :: "string \<Rightarrow> string \<Rightarrow> rat \<Rightarrow> inputVariantValue" where
  "exPair aid vid n =
     \<lparr> ivv_attributeId = aid, ivv_attributesValueId = Single vid,
       ivv_stock = Val (Finite n) \<rparr>"

definition exVariant :: "rat \<Rightarrow> rat \<Rightarrow> inputVariantValue list \<Rightarrow> inputVariant" where
  "exVariant price stock pairs =
     \<lparr> iv_price = Val (Finite price), iv_salePrice = Absent, iv_stock = Val (Finite stock),
       iv_values = Some pairs \<rparr>"

text \<open>"Crew Socks": two variants, only Size used.\<close>

definition socksVariants :: "inputVariant list" where
  "socksVariants =
     [exVariant 7 30 [exPair sizeId sizeS 30],
      exVariant 7 40 [exPair sizeId sizeM 40]]"

definition socksBody :: requestBody where
  "socksBody =
     emptyBody\<lparr> rb_title := Val ''Crew Socks'', rb_slug := Val ''crew-socks'',
                 rb_variants := Val socksVariants \<rparr>"

definition socksProduct :: product where
  "socksProduct =
     \<lparr> p_id = ''68c709d4e1e28a7c7730c241'', p_title = Some ''Crew Socks'',
       p_slug = Some ''crew-socks'', p_mainAttributeId = Some sizeId, p_price = None,
       p_salePrice = None, p_offerStart = None, p_offerEnd = None, p_stock = None,
       p_totalStock = Finite 70,
       p_variants =
         [\<lparr> v_id = ''68c709d4e1e28a7c7730c242'', v_price = Some (Finite 7), v_salePrice = None,
            v_stock = Some (Finite 30),
            v_values = [\<lparr> vv_attributeId = sizeId, vv_attributesValueId = Single sizeS,
                           vv_stock = Some (Finite 30) \<rparr>] \<rparr>,
          \<lparr> v_id = ''68c709d4e1e28a7c7730c243'', v_price = Some (Finite 7), v_salePrice = None,
            v_stock = Some (Finite 40),
            v_values = [\<lparr> vv_attributeId = sizeId, vv_attributesValueId = Single sizeM,
                           vv_stock = Some (Finite 40) \<rparr>] \<rparr>] \<rparr>"

text \<open>"Basic Cotton Tee": a simple product.\<close>

definition teeBody :: requestBody where
  "teeBody =
     emptyBody\<lparr> rb_title := Val ''Basic Cotton Tee'', rb_slug := Val ''basic-cotton-tee'',
                 rb_price := Val (Finite 13), rb_stock := Val (Finite 120) \<rparr>"

definition teeProduct :: product where
  "teeProduct =
     \<lparr> p_id = ''68c709d4e1e28a7c7730c241'', p_title = Some ''Basic Cotton Tee'',
       p_slug = Some ''basic-cotton-tee'', p_mainAttributeId = None,
       p_price = Some (Finite 13), p_salePrice = None, p_offerStart = None,
       p_offerEnd = None, p_stock = Some (Finite 120), p_totalStock = Finite 120, p_variants = [] \<rparr>"

text \<open>Two updates of the tee: a new stock, and a variant list sent without a main
  attribute.\<close>

definition teeRestock :: requestBody where
  "teeRestock = emptyBody\<lparr> rb_id := Val ''68c709d4e1e28a7c7730c241'', rb_stock := Val (Finite 80) \<rparr>"

definition teeRestocked :: product where
  "teeRestocked = teeProduct\<lparr> p_stock := Some (Finite 80), p_totalStock := Finite 80 \<rparr>"

definition teeAddVariants :: requestBody where
  "teeAddVariants =
     emptyBody\<lparr> rb_id := Val ''68c709d4e1e28a7c7730c241'',
                 rb_variants := Val [exVariant 5 3 [exPair sizeId sizeS 3]] \<rparr>"

text \<open>Two Size variants that name Color values: the first names Black, the second
  Red and the valid M.\<close>

definition mixedVariants :: "inputVariant list" where
  "mixedVariants =
     [exVariant 5 1 [exPair sizeId colorBlack 1],
      exVariant 5 2 [\<lparr> ivv_attributeId = sizeId,
                       ivv_attributesValueId = Multiple [colorRed, sizeM],
                       ivv_stock = Val (Finite 2) \<rparr>]]"

definition mixedBody :: requestBody where
  "mixedBody =
     emptyBody\<lparr> rb_title := Val ''Mixed'', rb_slug := Val ''mixed'',
                 rb_variants := Val mixedVariants \<rparr>"

text \<open>Three Size variants: the first names S; the second names Red, M and Black; the
  third names Black.\<close>

definition lateVariants :: "inputVariant list" where
  "lateVariants =
     [exVariant 5 1 [exPair sizeId sizeS 1],
      exVariant 5 2 [\<lparr> ivv_attributeId = sizeId,
                       ivv_attributesValueId = Multiple [colorRed, sizeM, colorBlack],
                       ivv_stock = Val (Finite 2) \<rparr>],
      exVariant 5 3 [exPair sizeId colorBlack 3]]"

definition lateBody :: requestBody where
  "lateBody =
     emptyBody\<lparr> rb_title := Val ''Late'', rb_slug := Val ''late'',
                 rb_variants := Val lateVariants \<rparr>"

text \<open>The tee on offer: price 20, sale price 15, the offer running from \<open>start\<close> to
  \<open>until\<close>.\<close>

definition teeOnOffer :: "int \<Rightarrow> int \<Rightarrow> product" where
  "teeOnOffer start until =
     teeProduct\<lparr> p_price := Some (Finite 20), p_salePrice := Some (Finite 15), p_offerStart := Some start,
                  p_offerEnd := Some until \<rparr>"

text \<open>A bulk delete of the tee, of a malformed id and of an id that names no product.\<close>

definition teeAndOthers :: "string list" where
  "teeAndOthers = [''68c709d4e1e28a7c7730c241'', ''bad-id'', ''68c709d4e1e28a7c7730c245'']"

text \<open>The socks with stale references: the first variant names an attribute that the
  catalog does not hold, the second a Size value that Size no longer defines.\<close>

definition staleSocks :: product where
  "staleSocks =
     socksProduct\<lparr> p_variants :=
       [\<lparr> v_id = ''68c709d4e1e28a7c7730c242'', v_price = Some (Finite 7), v_salePrice = None,
          v_stock = Some (Finite 30),
          v_values = [\<lparr> vv_attributeId = ''68b9d650e9f857534e61dc00'',
                         vv_attributesValueId = Single sizeS, vv_stock = Some (Finite 30) \<rparr>,
                      \<lparr> vv_attributeId = sizeId,
                         vv_attributesValueId = Multiple [sizeM, colorRed],
                         vv_stock = Some (Finite 30) \<rparr>] \<rparr>],
       p_mainAttributeId := Some sizeId \<rparr>"

text \<open>Expected bad input: the tee created with a negative stock, the tee's stock
  updated to \<^verbatim>\<open>null\<close>, the socks created with a negative variant stock.\<close>

definition teeNegativeStock :: requestBody where
  "teeNegativeStock = teeBody\<lparr> rb_stock := Val (Finite (- 1)) \<rparr>"

definition teeStockNull :: requestBody where
  "teeStockNull = emptyBody\<lparr> rb_id := Val ''68c709d4e1e28a7c7730c241'', rb_stock := Null \<rparr>"

definition socksNegativeStock :: requestBody where
  "socksNegativeStock =
     socksBody\<lparr> rb_variants := Val [exVariant 7 (- 5) [exPair sizeId sizeS 30]] \<rparr>"

text \<open>Socks whose two variants stock \<open>2\<^sup>5\<^sup>3\<close> and 1 pieces.\<close>

definition bigStockBody :: requestBody where
  "bigStockBody =
     socksBody\<lparr> rb_variants :=
       Val [exVariant 7 9007199254740992 [exPair sizeId sizeS 30],
            exVariant 7 1 [exPair sizeId sizeM 40]] \<rparr>"

definition bigStockProduct :: product where
  "bigStockProduct =
     socksProduct\<lparr> p_totalStock := Finite 9007199254740992,
       p_variants :=
         [\<lparr> v_id = ''68c709d4e1e28a7c7730c242'', v_price = Some (Finite 7), v_salePrice = None,
            v_stock = Some (Finite 9007199254740992),
            v_values = [\<lparr> vv_attributeId = sizeId, vv_attributesValueId = Single sizeS,
                           vv_stock = Some (Finite 30) \<rparr>] \<rparr>,
          \<lparr> v_id = ''68c709d4e1e28a7c7730c243'', v_price = Some (Finite 7), v_salePrice = None,
            v_stock = Some (Finite 1),
            v_values = [\<lparr> vv_attributeId = sizeId, vv_attributesValueId = Single sizeM,
                           vv_stock = Some (Finite 40) \<rparr>] \<rparr>] \<rparr>"

text \<open>The tee at a price and a sale price, with no offer window.\<close>

definition teePriced :: "rat \<Rightarrow> rat \<Rightarrow> product" where
  "teePriced price sale =
     teeProduct\<lparr> p_price := Some (Finite price), p_salePrice := Some (Finite sale) \<rparr>"

section \<open>Slug normalisation is idempotent\<close>

lemma isAlnum_not_hyphen: "isAlnum c \<Longrightarrow> c \<noteq> CHR ''-''"
  by (auto simp: isAlnum_def)

lemma isAlnum_lower:
  assumes "isAlnum c"
  shows "lowerChar c = c"
proof -
  have "c \<notin> set ''ABCDEFGHIJKLMNOPQRSTUVWXYZ''"
    using assms by (auto simp: isAlnum_def)
  then have "map_of (zip ''ABCDEFGHIJKLMNOPQRSTUVWXYZ'' ''abcdefghijklmnopqrstuvwxyz'') c = None"
    by (subst map_of_zip_is_None) simp_all
  then show ?thesis
    unfolding lowerChar_def by (simp only: option.case)
qed

lemma hyphen_lower: "lowerChar (CHR ''-'') = CHR ''-''"
  by (simp add: lowerChar_def)

lemma isAlnum_not_space: "isAlnum c \<Longrightarrow> \<not> isWhiteSpace c"
  by (auto simp: isAlnum_def isWhiteSpace_def)

lemma hyphen_not_space: "\<not> isWhiteSpace (CHR ''-'')"
  by (simp add: isWhiteSpace_def)

lemma replace_slugChars: "list_all isSlugChar (replaceNonAlnumRuns s)"
  by (induction s rule: replaceNonAlnumRuns.induct) (auto simp: isSlugChar_def)

lemma replace_head: "s \<noteq> [] \<Longrightarrow> isAlnum (hd s) \<Longrightarrow> replaceNonAlnumRuns s \<noteq> [] \<and> hd (replaceNonAlnumRuns s) = hd s"
  by (cases s) auto

lemma replace_noDouble: "noDoubleHyphen (replaceNonAlnumRuns s)"
proof (induction s rule: replaceNonAlnumRuns.induct)
  case 1
  then show ?case by simp
next
  case (2 c cs)
  show ?case
  proof (cases "isAlnum c")
    case True
    with 2 show ?thesis by (simp add: isAlnum_not_hyphen)
  next
    case False
    let ?r = "dropWhile (\<lambda>d. \<not> isAlnum d) cs"
    have "?r = [] \<or> isAlnum (hd ?r)"
      by (metis hd_dropWhile)
    then have "replaceNonAlnumRuns ?r = [] \<or> hd (replaceNonAlnumRuns ?r) \<noteq> CHR ''-''"
      using replace_head [of ?r] isAlnum_not_hyphen by fastforce
    with 2 False show ?thesis by simp
  qed
qed


lemma noDouble_tl: "noDoubleHyphen s \<Longrightarrow> noDoubleHyphen (tl s)"
  by (cases s) auto

lemma hd_butlast_eq: "butlast cs \<noteq> [] \<Longrightarrow> hd (butlast cs) = hd cs"
  by (cases cs) (auto split: if_splits)

lemma noDouble_butlast: "noDoubleHyphen s \<Longrightarrow> noDoubleHyphen (butlast s)"
  by (induction s) (auto simp: hd_butlast_eq)

lemma noDouble_last_butlast:
  "noDoubleHyphen s \<Longrightarrow> s \<noteq> [] \<Longrightarrow> last s = CHR ''-'' \<Longrightarrow> butlast s = [] \<or> last (butlast s) \<noteq> CHR ''-''"
proof (induction s)
  case Nil
  then show ?case by simp
next
  case (Cons c cs)
  show ?case
  proof (cases cs)
    case Nil
    then show ?thesis by simp
  next
    case (Cons d ds)
    show ?thesis
    proof (cases ds)
      case Nil
      with Cons Cons.prems show ?thesis by auto
    next
      case (Cons e es)
      with \<open>cs = d # ds\<close> Cons.prems Cons.IH show ?thesis by auto
    qed
  qed
qed

lemma slugChars_butlast: "list_all isSlugChar s \<Longrightarrow> list_all isSlugChar (butlast s)"
  by (induction s) auto

lemma stripLeading_shape:
  assumes "list_all isSlugChar s" "noDoubleHyphen s"
  shows "list_all isSlugChar (stripLeadingHyphen s) \<and> noDoubleHyphen (stripLeadingHyphen s) \<and>
         (stripLeadingHyphen s = [] \<or> hd (stripLeadingHyphen s) \<noteq> CHR ''-'')"
  using assms by (cases s) (auto simp: stripLeadingHyphen_def)

lemma stripTrailing_shape:
  assumes "list_all isSlugChar s" "noDoubleHyphen s" "s = [] \<or> hd s \<noteq> CHR ''-''"
  shows "slugShaped (stripTrailingHyphen s)"
proof (cases "s \<noteq> [] \<and> last s = CHR ''-''")
  case True
  then have eq: "stripTrailingHyphen s = butlast s"
    by (simp add: stripTrailingHyphen_def)
  have "butlast s = [] \<or> hd (butlast s) \<noteq> CHR ''-''"
    using assms(3) True by (cases s) auto
  moreover have "butlast s = [] \<or> last (butlast s) \<noteq> CHR ''-''"
    using noDouble_last_butlast assms(2) True by blast
  ultimately show ?thesis
    using assms eq by (auto simp: slugShaped_def slugChars_butlast noDouble_butlast)
next
  case False
  then show ?thesis
    using assms by (auto simp: slugShaped_def stripTrailingHyphen_def)
qed

lemma stripEdge_shape:
  "list_all isSlugChar s \<Longrightarrow> noDoubleHyphen s \<Longrightarrow> slugShaped (stripEdgeHyphens s)"
  unfolding stripEdgeHyphens_def
  using stripLeading_shape stripTrailing_shape by blast

lemma shaped_lower: "list_all isSlugChar t \<Longrightarrow> toLowerCase t = t"
  by (induction t) (auto simp: toLowerCase_def isSlugChar_def isAlnum_lower hyphen_lower)

lemma slugChar_not_space: "isSlugChar c \<Longrightarrow> \<not> isWhiteSpace c"
  by (auto simp: isSlugChar_def isAlnum_not_space hyphen_not_space)

lemma dropWhile_space_id: "t = [] \<or> \<not> isWhiteSpace (hd t) \<Longrightarrow> dropWhile isWhiteSpace t = t"
  by (cases t) auto

lemma shaped_trim: "list_all isSlugChar t \<Longrightarrow> trim t = t"
proof -
  assume a: "list_all isSlugChar t"
  have 1: "dropWhile isWhiteSpace t = t"
    using a by (cases t) (auto simp: slugChar_not_space)
  have "list_all isSlugChar (rev t)" using a by (simp add: list_all_iff)
  then have 2: "dropWhile isWhiteSpace (rev t) = rev t"
    by (cases "rev t") (auto simp: slugChar_not_space)
  show ?thesis by (simp add: trim_def 1 2)
qed

lemma shaped_replace:
  "list_all isSlugChar t \<Longrightarrow> noDoubleHyphen t \<Longrightarrow> replaceNonAlnumRuns t = t"
proof (induction t)
  case Nil
  then show ?case by simp
next
  case (Cons c cs)
  show ?case
  proof (cases "isAlnum c")
    case True
    with Cons show ?thesis by simp
  next
    case False
    with Cons.prems have c: "c = CHR ''-''" by (simp add: isSlugChar_def)
    with Cons.prems have "cs = [] \<or> isAlnum (hd cs)"
      by (cases cs) (auto simp: isSlugChar_def)
    then have "dropWhile (\<lambda>d. \<not> isAlnum d) cs = cs"
      by (cases cs) auto
    with Cons False c show ?thesis by simp
  qed
qed

lemma shaped_strip: "slugShaped t \<Longrightarrow> stripEdgeHyphens t = t"
  by (cases t) (auto simp: slugShaped_def stripEdgeHyphens_def stripLeadingHyphen_def stripTrailingHyphen_def split: if_splits)

lemma normalizeSlug_shaped: "slugShaped (normalizeSlug s)"
  by (simp add: normalizeSlug_def stripEdge_shape replace_slugChars replace_noDouble)

lemma slugFromTitle_shaped: "slugShaped (slugFromTitle s)"
  by (simp add: slugFromTitle_def stripEdge_shape replace_slugChars replace_noDouble)

lemma shaped_normalizeSlug: "slugShaped t \<Longrightarrow> normalizeSlug t = t"
  by (simp add: normalizeSlug_def slugShaped_def shaped_lower shaped_trim shaped_replace shaped_strip)

lemma shaped_slugFromTitle: "slugShaped t \<Longrightarrow> slugFromTitle t = t"
  by (simp add: slugFromTitle_def slugShaped_def shaped_lower shaped_replace shaped_strip)

text \<open>
  Claim C9. Slug normalisation (lower-case, trim, every run of characters outside
  \<^verbatim>\<open>[a-z0-9]\<close> collapsed to one hyphen, hyphens stripped at both ends) is idempotent,
  for the normalisation of an explicit slug and for the slug derived from a title;
  \<^verbatim>\<open>"Crew Socks!!"\<close> normalises to \<^verbatim>\<open>"crew-socks"\<close>, which normalises to itself.
\<close>

theorem slug_normalization_idempotent:
  "normalizeSlug (normalizeSlug s) = normalizeSlug s
   \<and> slugFromTitle (slugFromTitle s) = slugFromTitle s
   \<and> normalizeSlug (slugFromTitle s) = slugFromTitle s
   \<and> normalizeSlug ''Crew Socks!!'' = ''crew-socks''
   \<and> normalizeSlug ''crew-socks'' = ''crew-socks''"
proof -
  have ex1: "normalizeSlug ''Crew Socks!!'' = ''crew-socks''"
    by (simp add: normalizeSlug_def toLowerCase_def lowerChar_def trim_def isWhiteSpace_def
        isAlnum_def stripEdgeHyphens_def stripLeadingHyphen_def stripTrailingHyphen_def)
  have ex2: "normalizeSlug ''crew-socks'' = ''crew-socks''"
    by (simp add: normalizeSlug_def toLowerCase_def lowerChar_def trim_def isWhiteSpace_def
        isAlnum_def stripEdgeHyphens_def stripLeadingHyphen_def stripTrailingHyphen_def)
  show ?thesis
    using ex1 ex2 shaped_normalizeSlug [OF normalizeSlug_shaped]
      shaped_slugFromTitle [OF slugFromTitle_shaped]
      shaped_normalizeSlug [OF slugFromTitle_shaped]
    by simp
qed

section \<open>Arithmetic of doubles\<close>

lemma log2floor_one: "log2floor 1 = 0"
  by (subst log2floor.simps) simp

lemma log2floor_bounds:
  "1 \<le> n \<Longrightarrow> 0 \<le> log2floor n \<and> 2 ^ nat (log2floor n) \<le> n \<and> n < 2 ^ (nat (log2floor n) + 1)"
proof (induction n rule: log2floor.induct)
  case (1 n)
  show ?case
  proof (cases "n < 2")
    case True
    with 1 have "n = 1" by simp
    then show ?thesis by (simp add: log2floor_one)
  next
    case False
    then have h: "1 \<le> n div 2" by simp
    from 1(1) [OF False h] have ih: "0 \<le> log2floor (n div 2)"
      "2 ^ nat (log2floor (n div 2)) \<le> n div 2"
      "n div 2 < 2 ^ (nat (log2floor (n div 2)) + 1)" by simp_all
    have eq: "log2floor n = 1 + log2floor (n div 2)"
      using False by (subst log2floor.simps) simp
    have nat: "nat (log2floor n) = Suc (nat (log2floor (n div 2)))"
      using ih(1) eq by simp
    have "2 * 2 ^ nat (log2floor (n div 2)) \<le> 2 * (n div 2)" using ih(2) by simp
    also have "\<dots> \<le> n" by simp
    finally have lo: "2 ^ nat (log2floor n) \<le> n" by (simp add: nat)
    have "n < 2 * (n div 2 + 1)" by simp
    also have "\<dots> \<le> 2 * 2 ^ (nat (log2floor (n div 2)) + 1)"
      using ih(3) by simp
    finally have hi: "n < 2 ^ (nat (log2floor n) + 1)" by (simp add: nat)
    from ih(1) eq lo hi show ?thesis by simp
  qed
qed

lemma roundHalfEven_int: "roundHalfEven (of_int m) = m"
  by (simp add: roundHalfEven_def Let_def)

lemma exponentOf_int:
  assumes "1 \<le> n"
  shows "exponentOf (of_int n) = log2floor n"
proof -
  note l1 = log2floor_one
  from log2floor_bounds [OF assms] have b: "0 \<le> log2floor n" "2 ^ nat (log2floor n) \<le> n"
    by simp_all
  have "(2::rat) ^ nat (log2floor n) \<le> of_int n"
  proof -
    have "(of_int (2 ^ nat (log2floor n)) :: rat) \<le> of_int n"
      using b(2) by (simp only: of_int_le_iff)
    then show ?thesis by simp
  qed
  then have "pow2 (log2floor n) \<le> \<bar>of_int n\<bar>"
    using b(1) assms by (simp add: pow2_def)
  moreover have "\<bar>(of_int n)::rat\<bar> = of_int n" using assms by simp
  ultimately show ?thesis
    using assms by (simp add: exponentOf_def l1 Let_def)
qed

lemma roundToDouble_int:
  assumes "0 \<le> n" and "n \<le> 2 ^ 53"
  shows "roundToDouble (of_int n) = Finite (of_int n)"
proof (cases "n = 0")
  case True
  then show ?thesis by (simp add: roundToDouble_def)
next
  case False
  with assms have n1: "1 \<le> n" by simp
  let ?e = "log2floor n"
  from log2floor_bounds [OF n1] have b: "0 \<le> ?e" "2 ^ nat ?e \<le> n" by simp_all
  have e53: "nat ?e \<le> 53"
  proof (rule ccontr)
    assume "\<not> nat ?e \<le> 53"
    then have "54 \<le> nat ?e" by simp
    then have "(2::int) ^ 54 \<le> 2 ^ nat ?e" by (rule power_increasing) simp
    with b(2) assms(2) show False by simp
  qed
  have ex: "\<exists>m. (of_int n :: rat) = of_int m * pow2 (?e - 52)"
  proof (cases "nat ?e \<le> 52")
    case True
    then have p: "pow2 (?e - 52) = (if ?e = 52 then 1 else 1 / 2 ^ nat (52 - ?e))"
      using b(1) by (auto simp: pow2_def)
    have "(of_int n :: rat) = of_int (n * 2 ^ nat (52 - ?e)) * pow2 (?e - 52)"
      unfolding p using True by simp
    then show ?thesis by blast
  next
    case False
    with e53 have e: "nat ?e = 53" by simp
    with b(2) assms(2) have n: "n = 2 ^ 53" by simp
    have ee: "?e = 53" using e by simp
    have "pow2 (?e - 52) = 2" by (simp add: ee pow2_def)
    then have "(of_int n :: rat) = of_int (2 ^ 52) * pow2 (?e - 52)"
      by (simp add: n)
    then show ?thesis by blast
  qed
  then obtain m where m: "(of_int n :: rat) = of_int m * pow2 (?e - 52)" by blast
  have ppos: "0 < pow2 (?e - 52)" by (simp add: pow2_def)
  have q: "\<bar>of_int n :: rat\<bar> / pow2 (?e - 52) = of_int m"
    using m ppos n1 by simp
  have nz: "(of_int n :: rat) \<noteq> 0" using n1 by simp
  have e1023: "\<not> 1023 < ?e" "?e \<noteq> 1023" "max ?e (- 1022) = ?e"
    using e53 b(1) by simp_all
  have sg: "sgn (of_int n :: rat) = 1" using n1 by simp
  show ?thesis
    unfolding roundToDouble_def exponentOf_int [OF n1] Let_def
    using nz e1023 by (simp only: q roundHalfEven_int sg m [symmetric] if_False simp_thms mult_1)
qed


lemma numAdd_int:
  "0 \<le> a \<Longrightarrow> 0 \<le> k \<Longrightarrow> a + k \<le> 2 ^ 53 \<Longrightarrow>
     numAdd (Finite (of_int a)) (Finite (of_int k)) = Finite (of_int (a + k))"
  using roundToDouble_int [of "a + k"] by (simp add: numAdd_def)

lemma foldl_numAdd_int:
  "list_all (\<lambda>k. 0 \<le> k) ks \<Longrightarrow> 0 \<le> a \<Longrightarrow> a + sum_list ks \<le> 2 ^ 53 \<Longrightarrow>
     foldl numAdd (Finite (of_int a)) (map (\<lambda>k. Finite (of_int k)) ks)
       = Finite (of_int (a + sum_list ks))"
proof (induction ks arbitrary: a)
  case Nil
  then show ?case by simp
next
  case (Cons k ks)
  from Cons.prems have k: "0 \<le> k" and ks: "list_all (\<lambda>k. 0 \<le> k) ks" by simp_all
  from ks have "0 \<le> sum_list ks" by (simp add: list_all_iff sum_list_nonneg)
  with Cons.prems k have step: "a + k \<le> 2 ^ 53" "0 \<le> a + k" "(a + k) + sum_list ks \<le> 2 ^ 53"
    by simp_all
  have "numAdd (Finite (of_int a)) (Finite (of_int k)) = Finite (of_int (a + k))"
    using numAdd_int [OF Cons.prems(2) k step(1)] .
  then show ?case
    using Cons.IH [OF ks step(2) step(3)] by (simp add: add.assoc)
qed

lemma wholeNumber_int:
  "wholeNumber x \<Longrightarrow> x = Finite (of_int \<lfloor>finiteValue x\<rfloor>) \<and> 0 \<le> \<lfloor>finiteValue x\<rfloor>"
  by (cases x) (auto simp: wholeNumber_def finiteValue_def)

lemma wholeNumber_value: "wholeNumber x \<Longrightarrow> finiteValue x = of_int \<lfloor>finiteValue x\<rfloor>"
  by (cases x) (auto simp: wholeNumber_def finiteValue_def)

lemma machineSum_whole:
  assumes "list_all wholeNumber xs" and "sum_list (map finiteValue xs) \<le> 2 ^ 53"
  shows "machineSum xs = Finite (sum_list (map finiteValue xs))"
proof -
  let ?ks = "map (\<lambda>x. \<lfloor>finiteValue x\<rfloor>) xs"
  have each: "\<forall>x \<in> set xs. wholeNumber x"
    using assms(1) by (simp add: list_all_iff)
  have xs: "map (\<lambda>k. Finite (of_int k)) ?ks = xs"
    using each wholeNumber_int by (simp add: map_idI)
  have nn: "list_all (\<lambda>k. 0 \<le> k) ?ks"
    using each wholeNumber_int by (simp add: list_all_iff)
  have fv: "map finiteValue xs = map of_int ?ks"
    using each wholeNumber_value by simp
  have "sum_list (map of_int ks) = (of_int (sum_list ks) :: rat)" for ks :: "int list"
    by (induction ks) simp_all
  then have sm: "sum_list (map finiteValue xs) = (of_int (sum_list ?ks) :: rat)"
    unfolding fv .
  with assms(2) have "(of_int (sum_list ?ks) :: rat) \<le> of_int (2 ^ 53)" by simp
  then have le: "0 + sum_list ?ks \<le> 2 ^ 53" by (simp only: of_int_le_iff add_0)
  have "machineSum xs = foldl numAdd (Finite (of_int 0)) (map (\<lambda>k. Finite (of_int k)) ?ks)"
    unfolding machineSum_def xs by simp
  also have "\<dots> = Finite (of_int (0 + sum_list ?ks))"
    by (rule foldl_numAdd_int [OF nn _ le]) simp
  finally show ?thesis by (simp add: sm)
qed

lemma mathRound_nearest: "mathRound (Finite x) = Finite (of_int (nearestInteger x))"
proof -
  have "\<lfloor>x + 1 / 2\<rfloor> = nearestInteger x"
    unfolding nearestInteger_def by (rule floor_unique) (auto simp: field_simps; linarith)+
  then show ?thesis by (simp add: mathRound_def)
qed

lemma numGreaterEq_not_NaN: "numGreaterEq s (Finite 0) \<Longrightarrow> orZero s = s"
  by (auto simp: numGreaterEq_def orZero_def)

lemma nonneg_less_pos:
  "numGreaterEq e (Finite 0) \<Longrightarrow> numLess e b \<Longrightarrow> numLess (Finite 0) b"
  by (cases e; cases b) (auto simp: numGreaterEq_def numLess_def)

section \<open>What a successful write stores\<close>


lemma preValidate_keeps:
  "preValidate p = Inr p1 \<Longrightarrow>
     p_id p1 = p_id p \<and> p_variants p1 = p_variants p
     \<and> p_mainAttributeId p1 = p_mainAttributeId p \<and> p_slug p1 = p_slug p"
  by (auto simp: preValidate_def split: if_splits option.splits)

lemma preValidate_main: "preValidate p = Inr p1 \<Longrightarrow> mainAttributePresent p1"
  by (auto simp: preValidate_def mainAttributePresent_def split: if_splits option.splits)

lemma requiredNumber_orZero: "requiredNumber (Some s) \<Longrightarrow> orZero s = s"
  by (simp add: requiredNumber_def numGreaterEq_not_NaN)

lemma minZero_orZero: "minZero (Some s) \<Longrightarrow> orZero s = s"
  by (simp add: minZero_def numGreaterEq_not_NaN)

lemma schemaValid_variant_stock:
  "schemaValid p \<Longrightarrow> list_all (\<lambda>v. v_stock v \<noteq> None) (p_variants p)"
  by (auto simp: schemaValid_def validatedFields_def validVariant_def requiredNumber_def
      list_all_iff split: option.splits)

lemma validVariants_stocks:
  "list_all validVariant vs \<Longrightarrow> map stockOrZero vs = List.map_filter v_stock vs"
proof (induction vs)
  case Nil
  then show ?case by (simp add: map_filter_simps)
next
  case (Cons v vs)
  from Cons.prems have "requiredNumber (v_stock v)" by (simp add: validVariant_def)
  then obtain s where s: "v_stock v = Some s" "orZero s = s"
    by (cases "v_stock v") (auto simp: requiredNumber_def numGreaterEq_not_NaN)
  with Cons show ?case by (simp add: map_filter_simps stockOrZero_def)
qed

lemma hookSum_machineSum:
  "foldl (\<lambda>sum v. numAdd sum (stockOrZero v)) a vs = foldl numAdd a (map stockOrZero vs)"
  by (simp add: foldl_map)

lemma preValidate_stock:
  assumes "preValidate p = Inr p1" and "schemaValid p1"
  shows "totalStockCorrect p1"
proof (cases "p_variants p = []")
  case True
  with assms(1) obtain s where s: "p_stock p = Some s" "p1 = p\<lparr> p_totalStock := orZero s \<rparr>"
    by (auto simp: preValidate_def split: option.splits)
  with assms(2) have "minZero (Some s)" by (simp add: schemaValid_def validatedFields_def)
  with s True show ?thesis by (simp add: totalStockCorrect_def minZero_orZero)
next
  case False
  with assms(1) have p1: "p1 = p\<lparr> p_totalStock :=
        foldl (\<lambda>sum v. numAdd sum (stockOrZero v)) (Finite 0) (p_variants p), p_stock := None \<rparr>"
    by (auto simp: preValidate_def split: option.splits if_splits)
  then have vs: "p_variants p1 = p_variants p" by simp
  from assms(2) have "list_all validVariant (p_variants p)"
    by (simp add: schemaValid_def validatedFields_def vs)
  from validVariants_stocks [OF this] schemaValid_variant_stock [OF assms(2)] False
  show ?thesis
    by (simp add: p1 totalStockCorrect_def variantStocks_def machineSum_def hookSum_machineSum)
qed

lemma preSave_keeps:
  "p_id (preSave tm sm p) = p_id p"
  "p_variants (preSave tm sm p) = p_variants p"
  "p_mainAttributeId (preSave tm sm p) = p_mainAttributeId p"
  "p_stock (preSave tm sm p) = p_stock p"
  "p_totalStock (preSave tm sm p) = p_totalStock p"
  by (simp_all add: preSave_def)

lemma preSave_totalStock: "totalStockCorrect (preSave tm sm p) = totalStockCorrect p"
  by (simp add: totalStockCorrect_def variantStocks_def preSave_keeps)

lemma preSave_main: "mainAttributePresent (preSave tm sm p) = mainAttributePresent p"
  by (simp add: mainAttributePresent_def preSave_keeps cong: option.case_cong)

lemma preSave_validated: "validatedFields (preSave tm sm p) = validatedFields p"
  by (simp add: validatedFields_def preSave_def)

lemma saveDoc_Inr:
  assumes "saveDoc w tm sm st p = Inr (p', st')"
  shows "\<exists>p1. preValidate p = Inr p1 \<and> schemaValid p1 \<and> p' = preSave tm sm p1
              \<and> w st p' = Inr st'"
  using assms
  by (auto simp: saveDoc_def Let_def split: sum.splits if_splits)

lemma saveDoc_written:
  assumes "saveDoc w tm sm st p = Inr (p', st')"
  shows "totalStockCorrect p' \<and> mainAttributePresent p' \<and> p_id p' = p_id p
         \<and> w st p' = Inr st' \<and> validatedFields p'"
proof -
  from saveDoc_Inr [OF assms] obtain p1 where
    p1: "preValidate p = Inr p1" "schemaValid p1" "p' = preSave tm sm p1" "w st p' = Inr st'"
    by blast
  show ?thesis
    using p1 preValidate_stock [OF p1(1) p1(2)] preValidate_main [OF p1(1)]
      preValidate_keeps [OF p1(1)]
    by (simp add: preSave_totalStock preSave_main preSave_keeps preSave_validated
        schemaValid_def)
qed

lemma insertDoc_Inr: "insertDoc st p = Inr st' \<Longrightarrow> st' = st @ [p]"
  by (simp add: insertDoc_def split: if_splits)

lemma replaceDoc_Inr:
  "replaceDoc st p = Inr st' \<Longrightarrow> st' = map (\<lambda>q. if p_id q = p_id p then p else q) st"
  by (simp add: replaceDoc_def split: if_splits)

lemma catchStoreError_not_success:
  "catchStoreError e \<noteq> Created p" "catchStoreError e \<noteq> Updated p"
  by (cases e; simp)+

lemma persistNew_cases:
  "(\<exists>p st'. persistNew gen st b = (Created p, st') \<and> Product_create gen st b = Inr (p, st'))
   \<or> (snd (persistNew gen st b) = st \<and> (\<forall>p. fst (persistNew gen st b) \<noteq> Created p))"
  by (auto simp: persistNew_def catchStoreError_not_success split: sum.splits)

lemma createWithVariants_cases:
  "(\<exists>b. createWithVariants gen cat st payload vs = persistNew gen st b)
   \<or> (snd (createWithVariants gen cat st payload vs) = st
       \<and> (\<forall>p. fst (createWithVariants gen cat st payload vs) \<noteq> Created p))"
  by (auto simp: createWithVariants_def Let_def catchStoreError_not_success
      split: option.splits sum.splits)

lemma create_cases:
  "(\<exists>b. create gen cat st body = persistNew gen st b)
   \<or> (snd (create gen cat st body) = st \<and> (\<forall>p. fst (create gen cat st body) \<noteq> Created p))"
  using createWithVariants_cases [of gen cat st "normalizePayloadSlug body"]
  by (auto simp: create_def Let_def split: jsfield.splits list.splits)

lemma create_Created:
  assumes "create gen cat st body = (Created p, st')"
  shows "\<exists>b. Product_create gen st b = Inr (p, st')"
  using assms create_cases [of gen cat st body] persistNew_cases
  by (metis fst_conv response.inject(1) snd_conv)


lemma create_written:
  assumes "create gen cat st body = (Created p, st')"
  shows "totalStockCorrect p \<and> mainAttributePresent p \<and> st' = st @ [p]
         \<and> validatedFields p"
proof -
  from create_Created [OF assms] obtain b where "Product_create gen st b = Inr (p, st')"
    by blast
  then have "saveDoc insertDoc (p_title (newDocument gen b) \<noteq> None)
               (p_slug (newDocument gen b) \<noteq> None) st (newDocument gen b) = Inr (p, st')"
    by (simp add: Product_create_def Let_def)
  from saveDoc_written [OF this] show ?thesis
    by (simp add: insertDoc_Inr)
qed

lemma create_store:
  "snd (create gen cat st body) = st
   \<or> (\<exists>p. create gen cat st body = (Created p, st @ [p]))"
proof (cases "\<exists>p. fst (create gen cat st body) = Created p")
  case True
  then obtain p where "create gen cat st body = (Created p, snd (create gen cat st body))"
    by (metis prod.collapse)
  from this create_written [OF this] show ?thesis by metis
next
  case False
  then show ?thesis
    using create_cases [of gen cat st body] persistNew_cases [of gen st]
    by (metis fst_conv)
qed

lemma findById_Some:
  "Product_findById st i = Inr (Some q) \<Longrightarrow> q \<in> set st"
  by (auto simp: Product_findById_def find_Some_iff split: if_splits)

lemma assign_keeps_id:
  "p_id (assignSlug body (assignFields body q)) = p_id q"
  by (simp add: assignSlug_def assignFields_def split: jsfield.splits)

lemma updateById_cases:
  "(\<exists>q p2 tm sm p st'. q \<in> set st \<and> p_id p2 = p_id q
        \<and> saveDoc replaceDoc tm sm st p2 = Inr (p, st')
        \<and> updateById gen st body = (Updated p, st'))
   \<or> (snd (updateById gen st body) = st \<and> (\<forall>p. fst (updateById gen st body) \<noteq> Updated p))"
proof (cases "rb_id body")
  case (Val i)
  show ?thesis
  proof (cases "Product_findById st i")
    case (Inl e)
    with Val show ?thesis
      by (simp add: updateById_def catchStoreError_not_success)
  next
    case (Inr r)
    show ?thesis
    proof (cases r)
      case None
      with Val Inr show ?thesis by (simp add: updateById_def)
    next
      case (Some q)
      with Inr have q: "q \<in> set st" by (simp add: findById_Some)
      let ?p1 = "assignSlug body (assignFields body q)"
      let ?p2 = "case rb_variants body of Val vs \<Rightarrow> ?p1\<lparr>p_variants := castVariants gen vs\<rparr>
                 | _ \<Rightarrow> ?p1"
      let ?tm = "p_title ?p2 \<noteq> p_title q" and ?sm = "p_slug ?p2 \<noteq> p_slug q"
      have id2: "p_id ?p2 = p_id q"
        by (simp add: assign_keeps_id split: jsfield.splits)
      show ?thesis
      proof (cases "isValidObjectId i \<and> \<not> rb_mainBuild body
                    \<and> categoryAccepted (rb_category body) \<and> rb_variants body \<noteq> Null")
        case False
        with \<open>rb_id body = Val i\<close> Inr Some show ?thesis
          by (auto simp: updateById_def Let_def split: jsfield.splits)
      next
        case True
        then have run: "updateById gen st body =
            (case saveDoc replaceDoc ?tm ?sm st ?p2 of
               Inl e \<Rightarrow> (catchStoreError e, st)
             | Inr (p3, st') \<Rightarrow> (Updated p3, st'))"
          using \<open>rb_id body = Val i\<close> Inr Some
          by (simp add: updateById_def Let_def split: jsfield.splits)
        show ?thesis
        proof (cases "saveDoc replaceDoc ?tm ?sm st ?p2")
          case (Inl e)
          with run show ?thesis by (simp add: catchStoreError_not_success)
        next
          case (Inr res)
          obtain p st' where res: "res = (p, st')" by (cases res)
          with run Inr have "updateById gen st body = (Updated p, st')" by simp
          with q id2 Inr res show ?thesis by blast
        qed
      qed
    qed
  qed
qed (simp_all add: updateById_def)

lemma updateById_written:
  assumes "updateById gen st body = (Updated p, st')"
  shows "totalStockCorrect p \<and> mainAttributePresent p \<and> p \<in> set st'
         \<and> st' = map (\<lambda>q. if p_id q = p_id p then p else q) st
         \<and> validatedFields p"
proof -
  from updateById_cases [of st gen body] assms
  obtain q p2 tm sm where q: "q \<in> set st" "p_id p2 = p_id q"
    and s: "saveDoc replaceDoc tm sm st p2 = Inr (p, st')"
    by auto
  from saveDoc_written [OF s] have w: "totalStockCorrect p" "mainAttributePresent p"
    "p_id p = p_id p2" "replaceDoc st p = Inr st'" "validatedFields p" by simp_all
  from replaceDoc_Inr [OF w(4)] have st': "st' = map (\<lambda>q. if p_id q = p_id p then p else q) st" .
  have "p \<in> set st'"
    unfolding st' using q w(3) by (auto simp: image_iff intro!: bexI [of _ q])
  with w st' show ?thesis by simp
qed

section \<open>Worked requests\<close>

lemma socks_created:
  "create exGen exCatalog [] socksBody = (Created socksProduct, [socksProduct])"
  by code_simp

lemma tee_created:
  "create exGen exCatalog [] teeBody = (Created teeProduct, [teeProduct])"
  by code_simp

lemma tee_restocked:
  "updateById exGen [teeProduct] teeRestock = (Updated teeRestocked, [teeRestocked])"
  by code_simp

lemma tee_variants_rejected:
  "updateById exGen [teeProduct] teeAddVariants = (InternalError, [teeProduct])"
  by code_simp

section \<open>Total stock\<close>

lemma totalStock_exact:
  assumes "totalStockCorrect p" and "p_variants p \<noteq> []" and "wholeStocks p"
    and "exactStockSum p \<le> 2 ^ 53"
  shows "p_totalStock p = Finite (exactStockSum p)"
  using assms machineSum_whole [of "variantStocks p"]
  by (simp add: totalStockCorrect_def wholeStocks_def exactStockSum_def)

text \<open>
  Claim C1, as stated, fails for a product with variants: the stored total stock is
  not always the sum of the variants' stocks. The hook adds the stocks as doubles,
  from left to right. Two variants with the stocks \<open>2\<^sup>5\<^sup>3 = 9007199254740992\<close> and 1 are
  accepted, and the product is stored with the total stock 9007199254740992, while the
  sum of the two stocks is 9007199254740993.
\<close>

theorem total_stock_not_exact_sum:
  "create exGen exCatalog [] bigStockBody = (Created bigStockProduct, [bigStockProduct])
   \<and> variantStocks bigStockProduct = [Finite 9007199254740992, Finite 1]
   \<and> p_totalStock bigStockProduct = Finite 9007199254740992
   \<and> exactStockSum bigStockProduct = 9007199254740993"
  by code_simp

text \<open>
  Claim C1, amended. Every product written by a successful create or update has the
  total stock of its mode: without variants, its stock is a number and equals the
  total stock; with variants, every variant's stock is a number, the total stock is
  the sum of the variants' stocks as the machine forms it (added as doubles from left
  to right, starting from 0), and the top-level stock is cleared. When the variants'
  stocks are non-negative integers whose sum does not exceed \<open>2\<^sup>5\<^sup>3\<close>, that is the sum
  of the stocks itself.
\<close>

theorem total_stock_is_machine_sum:
  "(create gen cat st body = (Created p, st') \<longrightarrow>
      totalStockCorrect p \<and> p \<in> set st'
      \<and> (p_variants p \<noteq> [] \<and> wholeStocks p \<and> exactStockSum p \<le> 2 ^ 53
           \<longrightarrow> p_totalStock p = Finite (exactStockSum p)))
   \<and> (updateById gen st body = (Updated p, st') \<longrightarrow>
      totalStockCorrect p \<and> p \<in> set st'
      \<and> (p_variants p \<noteq> [] \<and> wholeStocks p \<and> exactStockSum p \<le> 2 ^ 53
           \<longrightarrow> p_totalStock p = Finite (exactStockSum p)))"
proof (intro conjI impI)
  assume "create gen cat st body = (Created p, st')"
  from create_written [OF this] show "totalStockCorrect p" and "p \<in> set st'" by simp_all
next
  assume "create gen cat st body = (Created p, st')"
    and "p_variants p \<noteq> [] \<and> wholeStocks p \<and> exactStockSum p \<le> 2 ^ 53"
  with create_written [of gen cat st body p st'] show "p_totalStock p = Finite (exactStockSum p)"
    by (simp add: totalStock_exact)
next
  assume "updateById gen st body = (Updated p, st')"
  from updateById_written [OF this] show "totalStockCorrect p" and "p \<in> set st'" by blast+
next
  assume "updateById gen st body = (Updated p, st')"
    and "p_variants p \<noteq> [] \<and> wholeStocks p \<and> exactStockSum p \<le> 2 ^ 53"
  with updateById_written [of gen st body p st'] show "p_totalStock p = Finite (exactStockSum p)"
    by (simp add: totalStock_exact)
qed

theorem total_stock_is_machine_sum_witness:
  "create exGen exCatalog [] socksBody = (Created socksProduct, [socksProduct])
   \<and> totalStockCorrect socksProduct \<and> socksProduct \<in> set [socksProduct]
   \<and> p_variants socksProduct \<noteq> [] \<and> wholeStocks socksProduct
   \<and> exactStockSum socksProduct = 30 + 40 \<and> exactStockSum socksProduct \<le> 2 ^ 53
   \<and> p_totalStock socksProduct = Finite (exactStockSum socksProduct)
   \<and> p_stock socksProduct = None
   \<and> updateById exGen [teeProduct] teeRestock = (Updated teeRestocked, [teeRestocked])
   \<and> totalStockCorrect teeRestocked \<and> teeRestocked \<in> set [teeRestocked]
   \<and> p_stock teeRestocked = Some (p_totalStock teeRestocked)"
proof -
  have nonempty: "p_variants socksProduct \<noteq> []"
    by (simp add: socksProduct_def)
  have whole: "wholeStocks socksProduct"
    by code_simp
  have exact: "exactStockSum socksProduct = 30 + 40"
    by code_simp
  then have small: "exactStockSum socksProduct \<le> 2 ^ 53"
    by simp
  have "totalStockCorrect socksProduct
        \<and> p_totalStock socksProduct = Finite (exactStockSum socksProduct)"
    using total_stock_is_machine_sum
      [of exGen exCatalog "[]" socksBody socksProduct "[socksProduct]"] socks_created
      nonempty whole small
    by simp
  moreover have "totalStockCorrect teeRestocked"
    using total_stock_is_machine_sum
      [of exGen exCatalog "[teeProduct]" teeRestock teeRestocked "[teeRestocked]"] tee_restocked
    by simp
  moreover have "p_stock socksProduct = None"
    by (simp add: socksProduct_def)
  moreover have "p_stock teeRestocked = Some (p_totalStock teeRestocked)"
    by (simp add: teeRestocked_def)
  ultimately show ?thesis
    using socks_created tee_restocked nonempty whole exact small by simp
qed

section \<open>Main attribute\<close>

lemma mainAttributePresent_replace:
  "list_all mainAttributePresent st \<Longrightarrow> mainAttributePresent p \<Longrightarrow>
     list_all mainAttributePresent (map (\<lambda>q. if p_id q = p_id p then p else q) st)"
  by (induction st) auto

text \<open>
  Claim C2. No product is persisted, by create or by update, with variants and no main
  attribute, or with a variant that has no pair for the main attribute: the product
  that a successful write returns has its main attribute present in every variant, and
  a store of such products stays one under create and update, whatever the request.
\<close>

theorem main_attribute_always_present:
  "(create gen cat st body = (Created p, st') \<longrightarrow> mainAttributePresent p)
   \<and> (updateById gen st body = (Updated p, st') \<longrightarrow> mainAttributePresent p)
   \<and> (list_all mainAttributePresent st \<longrightarrow>
        list_all mainAttributePresent (snd (create gen cat st body))
        \<and> list_all mainAttributePresent (snd (updateById gen st body)))"
proof (intro conjI impI)
  assume "create gen cat st body = (Created p, st')"
  from create_written [OF this] show "mainAttributePresent p" by simp
next
  assume "updateById gen st body = (Updated p, st')"
  from updateById_written [OF this] show "mainAttributePresent p" by simp
next
  assume inv: "list_all mainAttributePresent st"
  from create_store [of gen cat st body]
  show "list_all mainAttributePresent (snd (create gen cat st body))"
  proof
    assume "snd (create gen cat st body) = st"
    with inv show ?thesis by simp
  next
    assume "\<exists>q. create gen cat st body = (Created q, st @ [q])"
    then obtain q where q: "create gen cat st body = (Created q, st @ [q])" by blast
    from create_written [OF q] inv q show ?thesis by simp
  qed
next
  assume inv: "list_all mainAttributePresent st"
  from updateById_cases [of st gen body]
  show "list_all mainAttributePresent (snd (updateById gen st body))"
  proof
    assume "\<exists>q p2 tm sm p st'. q \<in> set st \<and> p_id p2 = p_id q
        \<and> saveDoc replaceDoc tm sm st p2 = Inr (p, st')
        \<and> updateById gen st body = (Updated p, st')"
    then obtain q st2 where q: "updateById gen st body = (Updated q, st2)" by blast
    from updateById_written [OF q] inv q show ?thesis
      by (simp add: mainAttributePresent_replace)
  next
    assume "snd (updateById gen st body) = st
            \<and> (\<forall>p. fst (updateById gen st body) \<noteq> Updated p)"
    with inv show ?thesis by simp
  qed
qed

theorem main_attribute_always_present_witness:
  "list_all mainAttributePresent [teeProduct]
   \<and> updateById exGen [teeProduct] teeAddVariants = (InternalError, [teeProduct])
   \<and> list_all mainAttributePresent (snd (updateById exGen [teeProduct] teeAddVariants))
   \<and> list_all mainAttributePresent (snd (create exGen exCatalog [teeProduct] socksBody))
   \<and> mainAttributePresent socksProduct
   \<and> p_mainAttributeId socksProduct = Some sizeId"
proof -
  have tee: "list_all mainAttributePresent [teeProduct]"
    by (simp add: mainAttributePresent_def teeProduct_def)
  have "mainAttributePresent socksProduct"
    using main_attribute_always_present
      [of exGen exCatalog "[]" socksBody socksProduct "[socksProduct]"] socks_created
    by simp
  moreover have "list_all mainAttributePresent (snd (create exGen exCatalog [teeProduct] socksBody))"
    using main_attribute_always_present [of exGen exCatalog "[teeProduct]" socksBody] tee
    by blast
  moreover have "list_all mainAttributePresent (snd (updateById exGen [teeProduct] teeAddVariants))"
    using main_attribute_always_present [of exGen exCatalog "[teeProduct]" teeAddVariants] tee
    by blast
  moreover have "p_mainAttributeId socksProduct = Some sizeId"
    by (simp add: socksProduct_def)
  ultimately show ?thesis
    using tee tee_variants_rejected by simp
qed

section \<open>Stored products have validated fields\<close>

text \<open>Every write goes through the validators, and the \<^verbatim>\<open>pre("save")\<close> hook that runs
  after them rewrites the slug only: a store of products with validated fields stays
  one under create, update and bulk delete.\<close>

lemma validatedFields_replace:
  "list_all validatedFields st \<Longrightarrow> validatedFields p \<Longrightarrow>
     list_all validatedFields (map (\<lambda>q. if p_id q = p_id p then p else q) st)"
  by (induction st) auto

lemma store_stays_validated:
  assumes "list_all validatedFields st"
  shows "list_all validatedFields (snd (create gen cat st body))"
    and "list_all validatedFields (snd (updateById gen st body))"
    and "list_all validatedFields (snd (bulkDelete st ids))"
proof -
  from create_store [of gen cat st body]
  show "list_all validatedFields (snd (create gen cat st body))"
  proof
    assume "snd (create gen cat st body) = st"
    with assms show ?thesis by simp
  next
    assume "\<exists>q. create gen cat st body = (Created q, st @ [q])"
    then obtain q where q: "create gen cat st body = (Created q, st @ [q])" by blast
    from create_written [OF q] assms q show ?thesis by simp
  qed
next
  from updateById_cases [of st gen body]
  show "list_all validatedFields (snd (updateById gen st body))"
  proof
    assume "\<exists>q p2 tm sm p st'. q \<in> set st \<and> p_id p2 = p_id q
        \<and> saveDoc replaceDoc tm sm st p2 = Inr (p, st')
        \<and> updateById gen st body = (Updated p, st')"
    then obtain q st2 where q: "updateById gen st body = (Updated q, st2)" by blast
    from updateById_written [OF q] assms q show ?thesis
      by (simp add: validatedFields_replace)
  next
    assume "snd (updateById gen st body) = st
            \<and> (\<forall>p. fst (updateById gen st body) \<noteq> Updated p)"
    with assms show ?thesis by simp
  qed
next
  show "list_all validatedFields (snd (bulkDelete st ids))"
    using assms
    by (auto simp: bulkDelete_def Product_deleteMany_def Let_def list_all_iff)
qed

section \<open>Main-attribute resolution\<close>

lemma set_distinctInOrder_aux:
  "set (foldl (\<lambda>acc x. if x \<in> set acc then acc else acc @ [x]) acc xs) = set acc \<union> set xs"
  by (induction xs arbitrary: acc) auto

lemma set_distinctInOrder: "set (distinctInOrder xs) = set xs"
  by (simp add: distinctInOrder_def set_distinctInOrder_aux)

lemma firstFailure_None: "firstFailure check xs = None \<longleftrightarrow> list_all (\<lambda>x. check x = None) xs"
  by (induction xs) (auto split: option.splits)

lemma pair_attribute_in_all:
  "v \<in> set vs \<Longrightarrow> p \<in> set (valuesOf v) \<Longrightarrow> ivv_attributeId p \<in> set (allAttrIdsOf vs)"
  by (auto simp: allAttrIdsOf_def set_distinctInOrder allPairs_def)

lemma single_attribute_every_variant:
  assumes "allAttrIdsOf vs = [a]" and "list_all variantShapeOk vs"
  shows "checkEveryVariantHasMain a vs = None"
proof -
  have "list_ex (\<lambda>p. ivv_attributeId p = a) (valuesOf v)" if v: "v \<in> set vs" for v
  proof -
    from v assms(2) have "variantShapeOk v" by (simp add: list_all_iff)
    then obtain p ps where ps: "valuesOf v = p # ps"
      by (cases "valuesOf v") (auto simp: variantShapeOk_def valuesOf_def split: option.splits)
    then have "ivv_attributeId p \<in> set (allAttrIdsOf vs)"
      using pair_attribute_in_all [OF v, of p] by simp
    with assms(1) have "ivv_attributeId p = a" by simp
    with ps show ?thesis by simp
  qed
  then show ?thesis
    unfolding checkEveryVariantHasMain_def firstFailure_None
    by (auto simp: list_all_iff dest: set_zip_rightD)
qed

lemma decide_single: "decideMainAttribute [a] main = Inr a"
  by (simp add: decideMainAttribute_def)

lemma resolve_single_independent:
  "allAttrIdsOf vs = [a] \<Longrightarrow> resolveMainAttribute main vs = resolveMainAttribute main' vs"
  by (simp add: resolveMainAttribute_def decide_single)

lemma resolve_single_result:
  "allAttrIdsOf vs = [a] \<Longrightarrow> resolveMainAttribute main vs = Inr m \<Longrightarrow> m = a"
  by (auto simp: resolveMainAttribute_def decide_single split: option.splits)

lemma single_attribute_nonempty: "allAttrIdsOf vs = [a] \<Longrightarrow> vs \<noteq> []"
  by (auto simp: allAttrIdsOf_def allPairs_def distinctInOrder_def)

lemma normalizePayloadSlug_keeps:
  "rb_variants (normalizePayloadSlug body) = rb_variants body"
  "rb_mainAttributeId (normalizePayloadSlug body) = rb_mainAttributeId body"
  "normalizePayloadSlug (body\<lparr>rb_mainAttributeId := m\<rparr>)
     = (normalizePayloadSlug body)\<lparr>rb_mainAttributeId := m\<rparr>"
  by (simp_all add: normalizePayloadSlug_def split: jsfield.splits)

lemma create_with_variants:
  "rb_variants body = Val vs \<Longrightarrow> vs \<noteq> [] \<Longrightarrow>
     create gen cat st body = createWithVariants gen cat st (normalizePayloadSlug body) vs"
  by (cases vs) (simp_all add: create_def Let_def normalizePayloadSlug_keeps)

lemma createWithVariants_Created:
  assumes "createWithVariants gen cat st payload vs = (Created p, st')"
  shows "\<exists>m. resolveMainAttribute (rb_mainAttributeId payload) vs = Inr m
             \<and> persistNew gen st (payload\<lparr> rb_mainAttributeId := Val m,
                                           rb_variants := Val (map cleanVariant vs) \<rparr>)
                 = (Created p, st')"
  using assms
  by (auto simp: createWithVariants_def Let_def catchStoreError_not_success
      split: if_splits option.splits sum.splits)

lemma Product_create_main:
  assumes "Product_create gen st b = Inr (p, st')"
  shows "p_mainAttributeId p = castField (rb_mainAttributeId b)"
proof -
  from assms have "saveDoc insertDoc (p_title (newDocument gen b) \<noteq> None)
               (p_slug (newDocument gen b) \<noteq> None) st (newDocument gen b) = Inr (p, st')"
    by (simp add: Product_create_def Let_def)
  from saveDoc_Inr [OF this] obtain p1 where
    "preValidate (newDocument gen b) = Inr p1" "p = preSave (p_title (newDocument gen b) \<noteq> None)
               (p_slug (newDocument gen b) \<noteq> None) p1"
    by blast
  then show ?thesis
    using preValidate_keeps [of "newDocument gen b" p1]
    by (simp add: preSave_keeps newDocument_def)
qed

lemma created_single_attribute_main:
  assumes "rb_variants body = Val vs" and "allAttrIdsOf vs = [a]"
    and "create gen cat st body = (Created p, st')"
  shows "p_mainAttributeId p = Some a"
proof -
  from assms have "createWithVariants gen cat st (normalizePayloadSlug body) vs = (Created p, st')"
    using create_with_variants [OF assms(1) single_attribute_nonempty [OF assms(2)]] by simp
  from createWithVariants_Created [OF this] obtain m where
    m: "resolveMainAttribute (rb_mainAttributeId (normalizePayloadSlug body)) vs = Inr m"
    and pn: "persistNew gen st ((normalizePayloadSlug body)\<lparr> rb_mainAttributeId := Val m,
                rb_variants := Val (map cleanVariant vs) \<rparr>) = (Created p, st')"
    by blast
  from resolve_single_result [OF assms(2) m] have "m = a" .
  moreover from pn have "Product_create gen st ((normalizePayloadSlug body)\<lparr> rb_mainAttributeId := Val m,
                rb_variants := Val (map cleanVariant vs) \<rparr>) = Inr (p, st')"
    by (auto simp: persistNew_def catchStoreError_not_success split: sum.splits)
  ultimately show ?thesis
    using Product_create_main by fastforce
qed

lemma firstFailure_Some:
  "firstFailure check xs = Some e \<Longrightarrow> \<exists>x \<in> set xs. check x = Some e"
  by (induction xs) (auto split: option.splits)

lemma resolve_single:
  "allAttrIdsOf vs = [a] \<Longrightarrow> list_all variantShapeOk vs \<Longrightarrow> resolveMainAttribute main vs = Inr a"
  by (simp add: resolveMainAttribute_def decide_single single_attribute_every_variant)

lemma catchStoreError_no_main_failure: "\<not> mainAttributeFailure (catchStoreError e)"
  by (cases e) simp_all

lemma persistNew_no_main_failure: "\<not> mainAttributeFailure (fst (persistNew gen st b))"
  by (auto simp: persistNew_def catchStoreError_no_main_failure split: sum.splits)

lemma checkPairShape_no_main_failure:
  "checkPairShape q = Some e \<Longrightarrow> \<not> mainAttributeFailure (BadRequest e)"
  by (auto simp: checkPairShape_def split: if_splits jsfield.splits)

lemma checkPairValues_no_main_failure:
  "checkPairValues vba q = Some e \<Longrightarrow> \<not> mainAttributeFailure (BadRequest e)"
  by (auto simp: checkPairValues_def Let_def split: if_splits option.splits)

lemma create_main_failure_free:
  assumes "rb_variants body = Val vs" and "allAttrIdsOf vs = [a]"
  shows "\<not> mainAttributeFailure (fst (create gen cat st body))"
proof -
  let ?payload = "normalizePayloadSlug body"
  have run: "create gen cat st body = createWithVariants gen cat st ?payload vs"
    using create_with_variants [OF assms(1) single_attribute_nonempty [OF assms(2)]] .
  show ?thesis
  proof (cases "list_all variantShapeOk vs")
    case False
    then show ?thesis
      by (simp add: run createWithVariants_def)
  next
    case True
    note res = resolve_single [OF assms(2) True]
    show ?thesis
      unfolding run createWithVariants_def Let_def
      using True
      by (auto simp: res persistNew_no_main_failure catchStoreError_no_main_failure
          dest!: firstFailure_Some checkPairShape_no_main_failure checkPairValues_no_main_failure
          split: option.splits sum.splits)
  qed
qed


lemma socks_single_attribute: "allAttrIdsOf socksVariants = [sizeId]"
  by code_simp

text \<open>
  Claim C3. When the variants of a create request use exactly one distinct attribute
  id, main-attribute resolution succeeds whatever the caller supplies, in particular
  when the caller supplies nothing, so the request never fails with a main-attribute
  error; and the main attribute stored on the created product is that attribute id.
\<close>

theorem single_attribute_becomes_main:
  assumes "rb_variants body = Val vs" and "allAttrIdsOf vs = [a]"
  shows "(list_all variantShapeOk vs \<longrightarrow> resolveMainAttribute Absent vs = Inr a)
         \<and> \<not> mainAttributeFailure (fst (create gen cat st body))
         \<and> (create gen cat st body = (Created p, st')
              \<longrightarrow> p_mainAttributeId p = Some a \<and> p \<in> set st')"
  using resolve_single [OF assms(2)] create_main_failure_free [OF assms]
    created_single_attribute_main [OF assms] create_written [of gen cat st body p st']
  by auto

theorem single_attribute_becomes_main_witness:
  "rb_variants socksBody = Val socksVariants \<and> rb_mainAttributeId socksBody = Absent
   \<and> allAttrIdsOf socksVariants = [sizeId]
   \<and> list_all variantShapeOk socksVariants
   \<and> resolveMainAttribute Absent socksVariants = Inr sizeId
   \<and> create exGen exCatalog [] socksBody = (Created socksProduct, [socksProduct])
   \<and> p_mainAttributeId socksProduct = Some sizeId"
proof -
  have b: "rb_variants socksBody = Val socksVariants" "rb_mainAttributeId socksBody = Absent"
    by (simp_all add: socksBody_def emptyBody_def)
  have shape: "list_all variantShapeOk socksVariants"
    by code_simp
  from single_attribute_becomes_main [OF b(1) socks_single_attribute,
      of exGen exCatalog "[]" socksProduct "[socksProduct]"] shape socks_created
  have "resolveMainAttribute Absent socksVariants = Inr sizeId"
    and "p_mainAttributeId socksProduct = Some sizeId"
    by simp_all
  with b shape socks_single_attribute socks_created show ?thesis by simp
qed

lemma createWithVariants_ignores_main:
  assumes "allAttrIdsOf vs = [a]"
  shows "createWithVariants gen cat st (payload\<lparr>rb_mainAttributeId := m\<rparr>) vs
         = createWithVariants gen cat st payload vs"
  using resolve_single_independent [OF assms, of m "rb_mainAttributeId payload"]
  by (auto simp: createWithVariants_def Let_def split: option.splits sum.splits)

text \<open>
  Claim C4, as stated, fails: with one distinct attribute id the caller's
  \<^verbatim>\<open>mainAttributeId\<close> is not validated. Sent with the malformed id \<^verbatim>\<open>not-an-id\<close>, the
  "Crew Socks" request is created (201) with Size as its main attribute.
\<close>

theorem invalid_main_attribute_not_reported:
  "\<not> isHex24 ''not-an-id''
   \<and> allAttrIdsOf socksVariants = [sizeId]
   \<and> create exGen exCatalog [] (socksBody\<lparr>rb_mainAttributeId := Val ''not-an-id''\<rparr>)
       = (Created socksProduct, [socksProduct])"
  by code_simp

text \<open>
  Claim C4, amended. When the variants of a create request use exactly one distinct
  attribute id, the caller's \<^verbatim>\<open>mainAttributeId\<close> is ignored altogether: the outcome of
  the request is the same whatever value is sent (valid, malformed or none), and a
  created product has the single distinct id as its main attribute.
\<close>

theorem single_attribute_ignores_caller_main:
  assumes "rb_variants body = Val vs" and "allAttrIdsOf vs = [a]"
  shows "create gen cat st (body\<lparr>rb_mainAttributeId := m\<rparr>) = create gen cat st body
         \<and> (create gen cat st (body\<lparr>rb_mainAttributeId := m\<rparr>) = (Created p, st')
              \<longrightarrow> p_mainAttributeId p = Some a)"
proof -
  have ne: "vs \<noteq> []" by (rule single_attribute_nonempty [OF assms(2)])
  have v: "rb_variants (body\<lparr>rb_mainAttributeId := m\<rparr>) = Val vs"
    using assms(1) by simp
  have "create gen cat st (body\<lparr>rb_mainAttributeId := m\<rparr>)
        = createWithVariants gen cat st ((normalizePayloadSlug body)\<lparr>rb_mainAttributeId := m\<rparr>) vs"
    using create_with_variants [OF v ne] by (simp add: normalizePayloadSlug_keeps)
  also have "\<dots> = createWithVariants gen cat st (normalizePayloadSlug body) vs"
    by (rule createWithVariants_ignores_main [OF assms(2)])
  also have "\<dots> = create gen cat st body"
    using create_with_variants [OF assms(1) ne] by simp
  finally have eq: "create gen cat st (body\<lparr>rb_mainAttributeId := m\<rparr>) = create gen cat st body" .
  with created_single_attribute_main [OF assms] show ?thesis by simp
qed

theorem single_attribute_ignores_caller_main_witness:
  "rb_variants socksBody = Val socksVariants \<and> allAttrIdsOf socksVariants = [sizeId]
   \<and> create exGen exCatalog [] (socksBody\<lparr>rb_mainAttributeId := Val ''not-an-id''\<rparr>)
       = create exGen exCatalog [] socksBody
   \<and> create exGen exCatalog [] (socksBody\<lparr>rb_mainAttributeId := Val colorId\<rparr>)
       = (Created socksProduct, [socksProduct])"
proof -
  have b: "rb_variants socksBody = Val socksVariants"
    by (simp add: socksBody_def emptyBody_def)
  from single_attribute_ignores_caller_main [OF b socks_single_attribute,
      of exGen exCatalog "[]"] socks_created b socks_single_attribute
  show ?thesis by simp
qed

section \<open>Value references (validation step 5)\<close>


lemma firstFailure_Some_split:
  "firstFailure check xs = Some e \<Longrightarrow>
     \<exists>pre x post. xs = pre @ x # post \<and> list_all (\<lambda>y. check y = None) pre \<and> check x = Some e"
proof (induction xs)
  case Nil
  then show ?case by simp
next
  case (Cons y ys)
  show ?case
  proof (cases "check y")
    case None
    with Cons obtain pre x post where
      "ys = pre @ x # post" "list_all (\<lambda>y. check y = None) pre" "check x = Some e"
      by auto
    with None have "y # ys = (y # pre) @ x # post \<and> list_all (\<lambda>y. check y = None) (y # pre)
        \<and> check x = Some e" by simp
    then show ?thesis by blast
  next
    case (Some e')
    with Cons.prems have "y # ys = [] @ y # ys \<and> list_all (\<lambda>y. check y = None) []
        \<and> check y = Some e" by simp
    then show ?thesis by blast
  qed
qed

lemma checkPairValues_ValuesNotDefined:
  assumes "checkPairValues vba pair = Some (ValuesNotDefined a bad)"
  shows "\<exists>allowed. ivv_attributeId pair = a \<and> vba a = Some allowed
           \<and> bad = filter (\<lambda>vid. vid \<notin> allowed) (toArray (ivv_attributesValueId pair))
           \<and> bad \<noteq> []"
  using assms
  by (auto simp: checkPairValues_def Let_def split: option.splits if_splits)

lemma persistNew_not_BadRequest: "fst (persistNew gen st b) \<noteq> BadRequest e"
proof (cases "Product_create gen st b")
  case (Inl err)
  then show ?thesis by (cases err) (simp_all add: persistNew_def)
next
  case (Inr r)
  then show ?thesis by (cases r) (simp add: persistNew_def)
qed

lemma checkPairShape_not_values:
  "checkPairShape q \<noteq> Some (ValuesNotDefined a bad)"
  by (auto simp: checkPairShape_def split: if_splits jsfield.splits)

lemma resolveMainAttribute_not_values:
  "resolveMainAttribute main vs \<noteq> Inl (ValuesNotDefined a bad)"
  by (auto simp: resolveMainAttribute_def decideMainAttribute_def checkEveryVariantHasMain_def
      split: sum.splits option.splits list.splits jsfield.splits if_splits prod.splits
      dest!: firstFailure_Some)

lemma catchStoreError_not_BadRequest: "catchStoreError err \<noteq> BadRequest e"
  by (cases err) simp_all

lemma createWithVariants_ValuesNotDefined:
  assumes "createWithVariants gen cat st payload vs = (BadRequest (ValuesNotDefined a bad), st')"
  shows "\<exists>attrs. Attribute_find cat (allAttrIdsOf vs) = Inr attrs
           \<and> firstFailure (checkPairValues (valuesByAttr attrs)) (allPairs vs)
               = Some (ValuesNotDefined a bad)
           \<and> st' = st"
proof -
  have pn: "persistNew gen st b \<noteq> (BadRequest (ValuesNotDefined a bad), st')" for b
    using persistNew_not_BadRequest [of gen st b] by (metis fst_conv)
  show ?thesis
    using assms
    by (auto simp: createWithVariants_def Let_def catchStoreError_not_BadRequest pn
        checkPairShape_not_values resolveMainAttribute_not_values
        split: if_splits option.splits sum.splits dest!: firstFailure_Some)
qed

lemma create_ValuesNotDefined:
  assumes "create gen cat st body = (BadRequest (ValuesNotDefined a bad), st')"
  shows "\<exists>vs. rb_variants body = Val vs
           \<and> createWithVariants gen cat st (normalizePayloadSlug body) vs
               = (BadRequest (ValuesNotDefined a bad), st')"
proof -
  have pn: "persistNew gen st b \<noteq> (BadRequest (ValuesNotDefined a bad), st')" for b
    using persistNew_not_BadRequest [of gen st b] by (metis fst_conv)
  show ?thesis
    using assms
    by (auto simp: create_def Let_def normalizePayloadSlug_keeps pn
        split: jsfield.splits list.splits if_splits)
qed


lemma firstFailure_at:
  "list_all (\<lambda>y. check y = None) pre \<Longrightarrow> check x = Some e
     \<Longrightarrow> firstFailure check (pre @ x # post) = Some e"
  by (induction pre) simp_all

lemma foldl_upd_other:
  "x \<notin> k ` set xs \<Longrightarrow> foldl (\<lambda>m a. m(k a \<mapsto> f a)) m0 xs x = m0 x"
  by (induction xs arbitrary: m0) simp_all

lemma foldl_upd_distinct:
  "distinct (map k xs) \<Longrightarrow> a \<in> set xs \<Longrightarrow> foldl (\<lambda>m a. m(k a \<mapsto> f a)) m0 xs (k a) = Some (f a)"
proof (induction xs arbitrary: m0)
  case Nil
  then show ?case by simp
next
  case (Cons x xs)
  show ?case
  proof (cases "a = x")
    case True
    with Cons.prems have "k x \<notin> k ` set xs" by simp
    from foldl_upd_other [OF this, of f "m0(k x \<mapsto> f x)"]
    have "foldl (\<lambda>m a. m(k a \<mapsto> f a)) (m0(k x \<mapsto> f x)) xs (k x) = Some (f x)"
      by simp
    then show ?thesis
      unfolding True by (simp only: foldl_Cons)
  next
    case False
    with Cons.prems have "distinct (map k xs)" "a \<in> set xs" by simp_all
    from Cons.IH [OF this] show ?thesis by (simp only: foldl_Cons)
  qed
qed

lemma valuesByAttr_distinct:
  "distinct (map a_id attrs) \<Longrightarrow> a \<in> set attrs
     \<Longrightarrow> valuesByAttr attrs (a_id a) = Some (set (map av_id (a_values a)))"
  unfolding valuesByAttr_def
  by (rule foldl_upd_distinct [of a_id attrs a "\<lambda>a. set (map av_id (a_values a))"])

lemma pairOffendingIds_attribute:
  assumes "distinct (map a_id cat)" and "a \<in> set cat" and "a_id a = ivv_attributeId q"
  shows "pairOffendingIds cat q
           = filter (\<lambda>vid. vid \<notin> set (map av_id (a_values a))) (toArray (ivv_attributesValueId q))"
proof -
  have "b = a" if "b \<in> set cat" "a_id b = ivv_attributeId q" for b
    using that assms by (metis distinct_map inj_onD)
  then have "list_ex (\<lambda>attr. a_id attr = ivv_attributeId q
                 \<and> vid \<in> set (map av_id (a_values attr))) cat
             \<longleftrightarrow> vid \<in> set (map av_id (a_values a))" for vid
    using assms(2,3) unfolding list_ex_iff by blast
  then show ?thesis by (simp add: pairOffendingIds_def)
qed

lemma Attribute_find_known:
  assumes "catalogIds cat" and "list_all isHex24 ids"
  shows "\<exists>attrs. Attribute_find cat ids = Inr attrs \<and> set attrs \<subseteq> set cat
           \<and> distinct (map a_id attrs)
           \<and> (\<forall>a \<in> set cat. a_id a \<in> set ids \<longrightarrow> a \<in> set attrs)"
proof -
  let ?attrs = "filter (\<lambda>a. a_id a \<in> set (map objectIdString ids)) cat"
  have "Attribute_find cat ids = Inr ?attrs"
    using assms(2) by (simp add: Attribute_find_def)
  moreover have "distinct (map a_id ?attrs)"
    using assms(1) by (simp add: catalogIds_def distinct_map_filter)
  moreover have "a \<in> set ?attrs" if "a \<in> set cat" "a_id a \<in> set ids" for a
  proof -
    from assms(1) that(1) have "objectIdString (a_id a) = a_id a"
      by (simp add: catalogIds_def list_all_iff)
    with that show ?thesis by (auto simp: image_iff intro!: bexI [of _ "a_id a"])
  qed
  ultimately show ?thesis by auto
qed

lemma set_allAttrIdsOf: "set (allAttrIdsOf vs) = ivv_attributeId ` set (allPairs vs)"
  by (simp add: allAttrIdsOf_def set_distinctInOrder)

lemma checkPairShape_hex: "checkPairShape q = None \<Longrightarrow> isHex24 (ivv_attributeId q)"
  by (simp add: checkPairShape_def split: if_splits)

lemma checkPairValues_offending:
  assumes "distinct (map a_id attrs)" and "set attrs \<subseteq> set cat" and "distinct (map a_id cat)"
    and "a \<in> set attrs" and "a_id a = ivv_attributeId q"
  shows "checkPairValues (valuesByAttr attrs) q
           = (if pairOffendingIds cat q \<noteq> []
              then Some (ValuesNotDefined (ivv_attributeId q) (pairOffendingIds cat q))
              else None)"
proof -
  from assms(2,4) have "a \<in> set cat" by auto
  from pairOffendingIds_attribute [OF assms(3) this assms(5)]
    valuesByAttr_distinct [OF assms(1,4)] assms(5)
  show ?thesis by (simp add: checkPairValues_def Let_def)
qed

lemma createWithVariants_first_offending:
  assumes shape: "list_all variantShapeOk vs"
    and pairs: "firstFailure checkPairShape (allPairs vs) = None"
    and cat: "catalogIds cat"
    and known: "attributesKnown cat vs"
    and split: "allPairs vs = pre @ pair # post"
    and pre: "list_all (\<lambda>q. pairOffendingIds cat q = []) pre"
    and bad: "pairOffendingIds cat pair \<noteq> []"
  shows "createWithVariants gen cat st payload vs
           = (BadRequest (ValuesNotDefined (ivv_attributeId pair) (pairOffendingIds cat pair)), st)"
proof -
  from pairs have hexes: "list_all isHex24 (allAttrIdsOf vs)"
    by (auto simp: firstFailure_None list_all_iff set_allAttrIdsOf checkPairShape_hex)
  from Attribute_find_known [OF cat hexes] obtain attrs where
    find: "Attribute_find cat (allAttrIdsOf vs) = Inr attrs"
    and sub: "set attrs \<subseteq> set cat"
    and dist: "distinct (map a_id attrs)"
    and found: "\<forall>a \<in> set cat. a_id a \<in> set (allAttrIdsOf vs) \<longrightarrow> a \<in> set attrs"
    by blast
  have fetched: "\<exists>a \<in> set attrs. a_id a = ivv_attributeId q" if "q \<in> set (allPairs vs)" for q
  proof -
    from known that obtain a where "a \<in> set cat" "a_id a = ivv_attributeId q"
      by (auto simp: attributesKnown_def list_all_iff list_ex_iff)
    moreover from that have "ivv_attributeId q \<in> set (allAttrIdsOf vs)"
      by (simp add: set_allAttrIdsOf)
    ultimately show ?thesis using found by auto
  qed
  have none_missing: "filter (\<lambda>i. i \<notin> set (map a_id attrs)) (allAttrIdsOf vs) = []"
    using fetched by (force simp: filter_empty_conv set_allAttrIdsOf)
  from cat have dcat: "distinct (map a_id cat)" by (simp add: catalogIds_def)
  have check: "checkPairValues (valuesByAttr attrs) q
           = (if pairOffendingIds cat q \<noteq> []
              then Some (ValuesNotDefined (ivv_attributeId q) (pairOffendingIds cat q))
              else None)" if "q \<in> set (allPairs vs)" for q
    using fetched [OF that] checkPairValues_offending [OF dist sub dcat] by blast
  have "list_all (\<lambda>q. checkPairValues (valuesByAttr attrs) q = None) pre"
    using pre check split by (simp add: list_all_iff)
  moreover have "checkPairValues (valuesByAttr attrs) pair
      = Some (ValuesNotDefined (ivv_attributeId pair) (pairOffendingIds cat pair))"
    using bad check [of pair] split by simp
  ultimately have "firstFailure (checkPairValues (valuesByAttr attrs)) (allPairs vs)
      = Some (ValuesNotDefined (ivv_attributeId pair) (pairOffendingIds cat pair))"
    unfolding split by (rule firstFailure_at)
  with shape pairs find none_missing show ?thesis
    by (simp add: createWithVariants_def Let_def)
qed

lemma create_first_offending:
  assumes "rb_variants body = Val vs"
    and "list_all variantShapeOk vs"
    and "firstFailure checkPairShape (allPairs vs) = None"
    and "catalogIds cat"
    and "attributesKnown cat vs"
    and "allPairs vs = pre @ pair # post"
    and "list_all (\<lambda>q. pairOffendingIds cat q = []) pre"
    and "pairOffendingIds cat pair \<noteq> []"
  shows "create gen cat st body
           = (BadRequest (ValuesNotDefined (ivv_attributeId pair) (pairOffendingIds cat pair)), st)"
proof -
  from assms(6) have "vs \<noteq> []" by (auto simp: allPairs_def)
  then obtain v vs' where vs: "vs = v # vs'" by (cases vs) auto
  have "create gen cat st body = createWithVariants gen cat st (normalizePayloadSlug body) vs"
    using assms(1) vs by (simp add: create_def Let_def normalizePayloadSlug_keeps)
  with createWithVariants_first_offending [OF assms(2-8)] show ?thesis by simp
qed

text \<open>
  Claim C5, as stated, fails: the violations are not collected per attribute. Two
  pairs of the Size attribute name the foreign value ids Black (first variant) and Red
  (second variant); the failure lists Black only, while the offending value ids of
  the attribute are Black and Red.
\<close>

theorem value_violations_not_collected_per_attribute:
  "create exGen exCatalog [] mixedBody = (BadRequest (ValuesNotDefined sizeId [colorBlack]), [])
   \<and> rb_variants mixedBody = Val mixedVariants
   \<and> offendingValueIds exCatalog mixedVariants sizeId = [colorBlack, colorRed]"
  by code_simp

text \<open>
  Claim C5, amended. Step 5 checks the pairs in request order (variant by variant,
  pair by pair) and the operation fails at the first pair that references a value id
  outside its attribute's value set: when the earlier steps pass (every variant and
  pair is well-formed and the catalog holds the attribute of every pair) and some pair
  has an offending value id, the request is refused with a failure that names the
  attribute id of the first such pair and lists all the offending value ids of that
  pair, in request order, and nothing is written. No other failure of this kind is
  returned: a failure listing value ids names a pair whose predecessors have no
  offending id, and lists exactly that pair's offending ids. The offending value ids of
  later pairs, of the same attribute or of another, are not collected.
\<close>

theorem value_violations_reported_for_first_pair:
  "(rb_variants body = Val vs \<and> list_all variantShapeOk vs
      \<and> firstFailure checkPairShape (allPairs vs) = None
      \<and> catalogIds cat \<and> attributesKnown cat vs
      \<and> allPairs vs = before @ pair # after
      \<and> list_all (\<lambda>q. pairOffendingIds cat q = []) before
      \<and> pairOffendingIds cat pair \<noteq> []
    \<longrightarrow> create gen cat st body
          = (BadRequest (ValuesNotDefined (ivv_attributeId pair) (pairOffendingIds cat pair)), st))
   \<and> (create gen cat st body = (BadRequest (ValuesNotDefined a bad), st')
    \<longrightarrow> (\<exists>ws attrs pre q post allowed.
           rb_variants body = Val ws
           \<and> Attribute_find cat (allAttrIdsOf ws) = Inr attrs
           \<and> allPairs ws = pre @ q # post
           \<and> list_all (\<lambda>q. checkPairValues (valuesByAttr attrs) q = None) pre
           \<and> ivv_attributeId q = a
           \<and> valuesByAttr attrs a = Some allowed
           \<and> bad = filter (\<lambda>vid. vid \<notin> allowed) (toArray (ivv_attributesValueId q))
           \<and> bad \<noteq> []
           \<and> st' = st))"
proof (intro conjI impI)
  assume "rb_variants body = Val vs \<and> list_all variantShapeOk vs
      \<and> firstFailure checkPairShape (allPairs vs) = None
      \<and> catalogIds cat \<and> attributesKnown cat vs
      \<and> allPairs vs = before @ pair # after
      \<and> list_all (\<lambda>q. pairOffendingIds cat q = []) before
      \<and> pairOffendingIds cat pair \<noteq> []"
  then show "create gen cat st body
      = (BadRequest (ValuesNotDefined (ivv_attributeId pair) (pairOffendingIds cat pair)), st)"
    using create_first_offending [of body vs cat before pair after gen st] by blast
next
  assume failed: "create gen cat st body = (BadRequest (ValuesNotDefined a bad), st')"
  from create_ValuesNotDefined [OF failed] obtain ws where
    ws: "rb_variants body = Val ws"
    and cw: "createWithVariants gen cat st (normalizePayloadSlug body) ws
               = (BadRequest (ValuesNotDefined a bad), st')"
    by blast
  from createWithVariants_ValuesNotDefined [OF cw] obtain attrs where
    attrs: "Attribute_find cat (allAttrIdsOf ws) = Inr attrs"
    and ff: "firstFailure (checkPairValues (valuesByAttr attrs)) (allPairs ws)
               = Some (ValuesNotDefined a bad)"
    and st: "st' = st"
    by blast
  from firstFailure_Some_split [OF ff] obtain pre q post where
    sp: "allPairs ws = pre @ q # post"
      "list_all (\<lambda>q. checkPairValues (valuesByAttr attrs) q = None) pre"
      "checkPairValues (valuesByAttr attrs) q = Some (ValuesNotDefined a bad)"
    by blast
  from checkPairValues_ValuesNotDefined [OF sp(3)] obtain allowed where
    "ivv_attributeId q = a" "valuesByAttr attrs a = Some allowed"
    "bad = filter (\<lambda>vid. vid \<notin> allowed) (toArray (ivv_attributesValueId q))" "bad \<noteq> []"
    by blast
  with ws attrs sp(1,2) st
  show "\<exists>ws attrs pre q post allowed.
           rb_variants body = Val ws
           \<and> Attribute_find cat (allAttrIdsOf ws) = Inr attrs
           \<and> allPairs ws = pre @ q # post
           \<and> list_all (\<lambda>q. checkPairValues (valuesByAttr attrs) q = None) pre
           \<and> ivv_attributeId q = a
           \<and> valuesByAttr attrs a = Some allowed
           \<and> bad = filter (\<lambda>vid. vid \<notin> allowed) (toArray (ivv_attributesValueId q))
           \<and> bad \<noteq> []
           \<and> st' = st"
    by blast
qed

theorem value_violations_reported_for_first_pair_witness:
  "rb_variants lateBody = Val lateVariants \<and> list_all variantShapeOk lateVariants
   \<and> firstFailure checkPairShape (allPairs lateVariants) = None
   \<and> catalogIds exCatalog \<and> attributesKnown exCatalog lateVariants
   \<and> allPairs lateVariants
       = [exPair sizeId sizeS 1]
         @ \<lparr> ivv_attributeId = sizeId,
             ivv_attributesValueId = Multiple [colorRed, sizeM, colorBlack],
             ivv_stock = Val (Finite 2) \<rparr>
         # [exPair sizeId colorBlack 3]
   \<and> list_all (\<lambda>q. pairOffendingIds exCatalog q = []) [exPair sizeId sizeS 1]
   \<and> pairOffendingIds exCatalog
         \<lparr> ivv_attributeId = sizeId,
           ivv_attributesValueId = Multiple [colorRed, sizeM, colorBlack],
           ivv_stock = Val (Finite 2) \<rparr> = [colorRed, colorBlack]
   \<and> create exGen exCatalog [] lateBody
       = (BadRequest (ValuesNotDefined sizeId [colorRed, colorBlack]), [])
   \<and> (\<exists>ws attrs pre q post allowed.
           rb_variants lateBody = Val ws
           \<and> Attribute_find exCatalog (allAttrIdsOf ws) = Inr attrs
           \<and> allPairs ws = pre @ q # post
           \<and> list_all (\<lambda>q. checkPairValues (valuesByAttr attrs) q = None) pre
           \<and> ivv_attributeId q = sizeId
           \<and> valuesByAttr attrs sizeId = Some allowed
           \<and> [colorRed, colorBlack]
               = filter (\<lambda>vid. vid \<notin> allowed) (toArray (ivv_attributesValueId q))
           \<and> [colorRed, colorBlack] \<noteq> [])"
proof -
  let ?pair = "\<lparr> ivv_attributeId = sizeId,
                 ivv_attributesValueId = Multiple [colorRed, sizeM, colorBlack],
                 ivv_stock = Val (Finite 2) \<rparr>"
  have h1: "rb_variants lateBody = Val lateVariants"
    by (simp add: lateBody_def emptyBody_def)
  have h2: "list_all variantShapeOk lateVariants"
    by code_simp
  have h3: "firstFailure checkPairShape (allPairs lateVariants) = None"
    by code_simp
  have h4: "catalogIds exCatalog"
    by code_simp
  have h5: "attributesKnown exCatalog lateVariants"
    by code_simp
  have h6: "allPairs lateVariants = [exPair sizeId sizeS 1] @ ?pair # [exPair sizeId colorBlack 3]"
    by code_simp
  have h7: "list_all (\<lambda>q. pairOffendingIds exCatalog q = []) [exPair sizeId sizeS 1]"
    by code_simp
  have h8: "pairOffendingIds exCatalog ?pair = [colorRed, colorBlack]"
    by code_simp
  have ne: "pairOffendingIds exCatalog ?pair \<noteq> []"
    unfolding h8 by simp
  have i: "ivv_attributeId ?pair = sizeId"
    by simp
  note both = value_violations_reported_for_first_pair
    [of lateBody lateVariants exCatalog "[exPair sizeId sizeS 1]" ?pair
      "[exPair sizeId colorBlack 3]" exGen "[]" sizeId "[colorRed, colorBlack]" "[]"]
  from both h1 h2 h3 h4 h5 h6 h7 ne
  have refused: "create exGen exCatalog [] lateBody
       = (BadRequest (ValuesNotDefined sizeId [colorRed, colorBlack]), [])"
    unfolding h8 i by blast
  with both
  have again: "\<exists>ws attrs pre q post allowed.
           rb_variants lateBody = Val ws
           \<and> Attribute_find exCatalog (allAttrIdsOf ws) = Inr attrs
           \<and> allPairs ws = pre @ q # post
           \<and> list_all (\<lambda>q. checkPairValues (valuesByAttr attrs) q = None) pre
           \<and> ivv_attributeId q = sizeId
           \<and> valuesByAttr attrs sizeId = Some allowed
           \<and> [colorRed, colorBlack]
               = filter (\<lambda>vid. vid \<notin> allowed) (toArray (ivv_attributesValueId q))
           \<and> [colorRed, colorBlack] \<noteq> []"
    by blast
  show ?thesis
    by (intro conjI) (fact h1 h2 h3 h4 h5 h6 h7 h8 refused again)+
qed

section \<open>Effective price and discount\<close>

lemma effectivePrice_spec: "effectivePrice p now = specEffectivePrice p now"
  by (auto simp: effectivePrice_def specEffectivePrice_def inWindow_def offerWindow_def
      split: option.splits)

lemma effectivePrice_cases:
  "effectivePrice p now = p_price p \<or> effectivePrice p now = p_salePrice p"
  by (auto simp: effectivePrice_def split: option.splits)

lemma mathRound_spec:
  "mathRound a = (case a of Finite x \<Rightarrow> Finite (of_int (nearestInteger x)) | w \<Rightarrow> w)"
  by (cases a) (simp_all add: mathRound_nearest, simp_all add: mathRound_def)

lemma discountPercent_spec:
  assumes "minZero (p_price p)" and "minZero (p_salePrice p)"
  shows "discountPercent p now = specDiscountPercent p now"
proof (cases "p_price p")
  case None
  then show ?thesis by (simp add: discountPercent_def specDiscountPercent_def)
next
  case (Some base)
  note base = this
  show ?thesis
  proof (cases "effectivePrice p now")
    case None
    with base show ?thesis
      by (simp add: discountPercent_def specDiscountPercent_def effectivePrice_spec [symmetric])
  next
    case (Some eff)
    have "numGreaterEq eff (Finite 0)"
      using effectivePrice_cases [of p now] Some assms base
      by (auto simp: minZero_def split: option.splits)
    then have "numLess eff base \<Longrightarrow> numLess (Finite 0) base"
      by (rule nonneg_less_pos)
    with Some base show ?thesis
      by (auto simp: discountPercent_def specDiscountPercent_def effectivePrice_spec [symmetric]
          mathRound_spec)
  qed
qed

lemma validated_prices:
  "validatedFields p \<Longrightarrow> minZero (p_price p) \<and> minZero (p_salePrice p)"
  by (simp add: validatedFields_def)

lemma offer_examples:
  "effectivePrice (teeOnOffer 100 300) 200 = Some (Finite 15)"
  "discountPercent (teeOnOffer 100 300) 200 = Finite 25"
  "effectivePrice (teeOnOffer 100 150) 200 = Some (Finite 20)"
  "discountPercent (teeOnOffer 100 150) 200 = Finite 0"
  by code_simp+

lemma rounding_examples:
  "discountPercent (teePriced 40 17) 200 = Finite 57"
  "discountPercent (teePriced 3 1) 200 = Finite 67"
  "discountPercent (teePriced 8 7) 200 = Finite 13"
  "discountPercent (teePriced 10 9) 200 = Finite 10"
  by code_simp+

text \<open>
  Claim C6, as stated, fails for the discount: it is not always the percentage
  \<open>(price - effectivePrice) / price * 100\<close> rounded. With price 40 and sale price 17 (no
  offer window) the effective price is 17 and the percentage is 57.5, which rounds to
  58; the getter divides and multiplies doubles, gets 57.49999999999999, and returns 57.
\<close>

theorem discount_not_rounded_percentage:
  "validatedFields (teePriced 40 17)
   \<and> effectivePrice (teePriced 40 17) 200 = Some (Finite 17)
   \<and> exactDiscountPercent (teePriced 40 17) 200 = 58
   \<and> discountPercent (teePriced 40 17) 200 = Finite 57"
proof -
  have "validatedFields (teePriced 40 17)"
    by code_simp
  moreover have "effectivePrice (teePriced 40 17) 200 = Some (Finite 17)"
    by code_simp
  moreover have "nearestInteger (115 / 2) = 58"
    by code_simp
  then have "exactDiscountPercent (teePriced 40 17) 200 = 58"
    by (simp add: exactDiscountPercent_def specEffectivePrice_def offerWindow_def teePriced_def
        teeProduct_def)
  moreover have "discountPercent (teePriced 40 17) 200 = Finite 57"
    by code_simp
  ultimately show ?thesis by simp
qed

text \<open>
  Claim C6, amended. For a stored product (its fields validated) read at time \<open>now\<close>,
  the effective price is the sale price when the sale price is a number and \<open>now\<close> lies
  in the offer window (open-ended at an absent bound), and the price otherwise. The
  discount is 0 unless the effective price is below the price; then it is the nearest
  integer (a half going up) of the double that the machine computes as
  \<open>((price - effectivePrice) / price) * 100\<close>, each operation rounded to a double, which
  may differ from the rounded percentage. Both are computed from the stored fields;
  the product record has no field for either. With price 20 and sale price 15, inside
  the window they are 15 and 25; with the offer ended, 20 and 0. With no window, the
  prices 40 and 17 give the discount 57, 3 and 1 give 67, 8 and 7 give 13 (from 12.5),
  10 and 9 give 10.
\<close>

theorem effective_price_and_machine_discount:
  assumes "validatedFields p"
  shows "effectivePrice p now = specEffectivePrice p now
         \<and> discountPercent p now = specDiscountPercent p now
         \<and> effectivePrice (teeOnOffer 100 300) 200 = Some (Finite 15)
         \<and> discountPercent (teeOnOffer 100 300) 200 = Finite 25
         \<and> effectivePrice (teeOnOffer 100 150) 200 = Some (Finite 20)
         \<and> discountPercent (teeOnOffer 100 150) 200 = Finite 0
         \<and> discountPercent (teePriced 40 17) 200 = Finite 57
         \<and> discountPercent (teePriced 3 1) 200 = Finite 67
         \<and> discountPercent (teePriced 8 7) 200 = Finite 13
         \<and> discountPercent (teePriced 10 9) 200 = Finite 10"
  using validated_prices [OF assms] offer_examples rounding_examples
  by (simp add: effectivePrice_spec discountPercent_spec)

theorem effective_price_and_machine_discount_witness:
  "validatedFields (teePriced 40 17)
   \<and> effectivePrice (teePriced 40 17) 200 = specEffectivePrice (teePriced 40 17) 200
   \<and> discountPercent (teePriced 40 17) 200 = specDiscountPercent (teePriced 40 17) 200
   \<and> specEffectivePrice (teePriced 40 17) 200 = Some (Finite 17)
   \<and> specDiscountPercent (teePriced 40 17) 200 = Finite 57"
proof -
  have v: "validatedFields (teePriced 40 17)"
    by code_simp
  have e17: "effectivePrice (teePriced 40 17) 200 = Some (Finite 17)"
    by code_simp
  from effective_price_and_machine_discount [OF v, of 200]
  have e: "effectivePrice (teePriced 40 17) 200 = specEffectivePrice (teePriced 40 17) 200"
    and d: "discountPercent (teePriced 40 17) 200 = specDiscountPercent (teePriced 40 17) 200"
    and d57: "discountPercent (teePriced 40 17) 200 = Finite 57"
    by blast+
  show ?thesis
    unfolding e [symmetric] d [symmetric] using v e17 d57 by simp
qed

section \<open>Bulk delete\<close>


lemma filter_partition_length:
  "length xs = length (filter P xs) + length (filter (\<lambda>x. \<not> P x) xs)"
  by (induction xs) auto

text \<open>
  Claim C7, as stated, fails for a non-empty id list without a well-formed id: the
  batch is refused with a validation failure, and no deleted count is reported.
\<close>

theorem bulk_delete_all_malformed_refused:
  "bulkDelete [teeProduct] [''bad-id''] = (BadRequest NoValidIds, [teeProduct])"
  by code_simp

text \<open>
  Claim C7, amended. For every bulk-delete request whose id list holds at least one
  well-formed (24-hex) id, the malformed ids are filtered out without failing the
  batch, all well-formed ids go into one batch deletion, and the response reports the
  well-formed ids as requested together with the number of documents removed (the
  store shrinks by exactly that number, and keeps exactly the documents not named).
  For the ids \<open>[A, "bad-id", B]\<close> where only \<open>A\<close> exists, the deletion is attempted for
  \<open>A\<close> and \<open>B\<close> and the deleted count is 1. Every non-empty list with no well-formed id
  is refused as a whole with a validation failure, and nothing is deleted.
\<close>

theorem bulk_delete_reports_removed:
  "(filter isHex24 ids \<noteq> [] \<longrightarrow>
      (\<exists>n st'. bulkDelete st ids = (Deleted (filter isHex24 ids) n, st')
           \<and> (n, st') = Product_deleteMany st (map objectIdString (filter isHex24 ids))
           \<and> st' = filter (\<lambda>p. p_id p \<notin> objectIdString ` set (filter isHex24 ids)) st
           \<and> length st = n + length st'))
   \<and> (ids \<noteq> [] \<and> filter isHex24 ids = [] \<longrightarrow>
      bulkDelete st ids = (BadRequest NoValidIds, st))"
proof (intro conjI impI)
  assume wellformed: "filter isHex24 ids \<noteq> []"
  then have "ids \<noteq> []" by auto
  then show "\<exists>n st'. bulkDelete st ids = (Deleted (filter isHex24 ids) n, st')
           \<and> (n, st') = Product_deleteMany st (map objectIdString (filter isHex24 ids))
           \<and> st' = filter (\<lambda>p. p_id p \<notin> objectIdString ` set (filter isHex24 ids)) st
           \<and> length st = n + length st'"
    using wellformed
      filter_partition_length [of st "\<lambda>p. p_id p \<in> objectIdString ` set (filter isHex24 ids)"]
    by (simp add: bulkDelete_def Product_deleteMany_def Let_def)
next
  assume "ids \<noteq> [] \<and> filter isHex24 ids = []"
  then show "bulkDelete st ids = (BadRequest NoValidIds, st)"
    by (simp add: bulkDelete_def Let_def)
qed

theorem bulk_delete_reports_removed_witness:
  "filter isHex24 teeAndOthers = [''68c709d4e1e28a7c7730c241'', ''68c709d4e1e28a7c7730c245'']
   \<and> bulkDelete [teeProduct] teeAndOthers
       = (Deleted [''68c709d4e1e28a7c7730c241'', ''68c709d4e1e28a7c7730c245''] 1, [])
   \<and> (\<exists>n st'. bulkDelete [teeProduct] teeAndOthers = (Deleted (filter isHex24 teeAndOthers) n, st')
           \<and> length [teeProduct] = n + length st')
   \<and> [''bad-id'', ''68c709d4''] \<noteq> [] \<and> filter isHex24 [''bad-id'', ''68c709d4''] = []
   \<and> bulkDelete [teeProduct] [''bad-id'', ''68c709d4''] = (BadRequest NoValidIds, [teeProduct])"
proof -
  have f: "filter isHex24 teeAndOthers = [''68c709d4e1e28a7c7730c241'', ''68c709d4e1e28a7c7730c245'']"
    by code_simp
  have d: "bulkDelete [teeProduct] teeAndOthers
       = (Deleted [''68c709d4e1e28a7c7730c241'', ''68c709d4e1e28a7c7730c245''] 1, [])"
    by code_simp
  have ne: "filter isHex24 teeAndOthers \<noteq> []"
    using f by simp
  have none: "filter isHex24 [''bad-id'', ''68c709d4''] = []"
    by code_simp
  from bulk_delete_reports_removed [of teeAndOthers "[teeProduct]"] ne
  have removed: "\<exists>n st'. bulkDelete [teeProduct] teeAndOthers
             = (Deleted (filter isHex24 teeAndOthers) n, st')
           \<and> length [teeProduct] = n + length st'"
    by blast
  from bulk_delete_reports_removed [of "[''bad-id'', ''68c709d4'']" "[teeProduct]"] none
  have refused: "bulkDelete [teeProduct] [''bad-id'', ''68c709d4'']
      = (BadRequest NoValidIds, [teeProduct])"
    by blast
  have nonempty: "[''bad-id'', ''68c709d4''] \<noteq> []"
    by simp
  show ?thesis
    by (intro conjI) (fact f d removed nonempty none refused)+
qed

section \<open>Resolution projection\<close>


lemma foldl_upd_lookup:
  "foldl (\<lambda>m a. m(k a \<mapsto> f a)) m0 xs x = Some r \<Longrightarrow>
     m0 x = Some r \<or> (\<exists>a \<in> set xs. k a = x \<and> r = f a)"
  by (induction xs arbitrary: m0) (fastforce split: if_splits)+

lemma attrById_Some:
  "attrById attrs x = Some r \<Longrightarrow> \<exists>a \<in> set attrs. a_id a = x \<and> r = attributeInfo a"
  unfolding attrById_def using foldl_upd_lookup [of a_id attributeInfo Map.empty attrs x r]
  by simp

lemma valueMap_Some:
  "valueMap vals x = Some r \<Longrightarrow> \<exists>v \<in> set vals. av_id v = x \<and> r = valueInfo v"
  unfolding valueMap_def using foldl_upd_lookup [of av_id valueInfo Map.empty vals x r]
  by simp

lemma valByAttrId_Some:
  "valByAttrId attrs x = Some vm \<Longrightarrow> \<exists>a \<in> set attrs. a_id a = x \<and> vm = valueMap (a_values a)"
  unfolding valByAttrId_def
  using foldl_upd_lookup [of a_id "\<lambda>a. valueMap (a_values a)" Map.empty attrs x vm]
  by simp

lemma resolveValue_ok:
  assumes "set attrs \<subseteq> set cat"
  shows "valueResolved cat aid vid (resolveValue (valByAttrId attrs) aid vid)"
proof (cases "valByAttrId attrs aid")
  case None
  then show ?thesis
    by (simp add: resolveValue_def valueResolved_def placeholderValue_def)
next
  case (Some vm)
  from valByAttrId_Some [OF Some] obtain a where
    a: "a \<in> set attrs" "a_id a = aid" "vm = valueMap (a_values a)" by blast
  show ?thesis
  proof (cases "vm vid")
    case None
    with Some show ?thesis
      by (simp add: resolveValue_def valueResolved_def placeholderValue_def)
  next
    case (Some r)
    with a valueMap_Some [of "a_values a" vid r] obtain v where
      v: "v \<in> set (a_values a)" "av_id v = vid" "r = valueInfo v" by blast
    have "list_ex (\<lambda>a. a_id a = aid \<and> list_ex (\<lambda>v. av_id v = vid) (a_values a)) cat"
      using a v assms by (auto simp: list_ex_iff)
    with Some \<open>valByAttrId attrs aid = Some vm\<close> v show ?thesis
      by (simp add: resolveValue_def valueResolved_def valueInfo_def)
  qed
qed

lemma list_all2_map_right: "(\<And>x. x \<in> set xs \<Longrightarrow> P x (f x)) \<Longrightarrow> list_all2 P xs (map f xs)"
  by (induction xs) auto

lemma resolvePair_ok:
  assumes "set attrs \<subseteq> set cat"
  shows "pairResolved cat pair (resolvePair (attrById attrs) (valByAttrId attrs) pair)"
proof -
  have attr: "ra_id (rp_attribute (resolvePair (attrById attrs) (valByAttrId attrs) pair))
                = vv_attributeId pair
              \<and> (list_ex (\<lambda>a. a_id a = vv_attributeId pair) cat
                  \<or> rp_attribute (resolvePair (attrById attrs) (valByAttrId attrs) pair)
                      = placeholderAttribute (vv_attributeId pair))"
  proof (cases "attrById attrs (vv_attributeId pair)")
    case None
    then show ?thesis by (simp add: resolvePair_def placeholderAttribute_def)
  next
    case (Some info)
    from attrById_Some [OF Some] obtain a where
      "a \<in> set attrs" "a_id a = vv_attributeId pair" "info = attributeInfo a" by blast
    with Some assms show ?thesis
      by (auto simp: resolvePair_def attributeInfo_def list_ex_iff)
  qed
  have "list_all2 (valueResolved cat (vv_attributeId pair))
          (toArray (vv_attributesValueId pair))
          (rp_values (resolvePair (attrById attrs) (valByAttrId attrs) pair))"
    by (simp add: resolvePair_def list_all2_map_right resolveValue_ok [OF assms])
  with attr show ?thesis by (simp add: pairResolved_def)
qed

lemma resolveVariant_ok:
  assumes "set attrs \<subseteq> set cat"
  shows "variantResolved cat v (resolveVariant (attrById attrs) (valByAttrId attrs) v)"
  by (simp add: variantResolved_def resolveVariant_def list_all2_map_right
      resolvePair_ok [OF assms])

lemma Attribute_find_subset: "Attribute_find cat ids = Inr attrs \<Longrightarrow> set attrs \<subseteq> set cat"
  by (auto simp: Attribute_find_def split: if_splits)

lemma validated_attribute_ids:
  assumes "validatedFields p"
  shows "list_all isHex24 (distinctInOrder (map vv_attributeId (concat (map v_values (p_variants p)))))"
proof -
  have "isHex24 (vv_attributeId q)" if "v \<in> set (p_variants p)" "q \<in> set (v_values v)" for v q
    using assms that
    by (auto simp: validatedFields_def validVariant_def validateVariantValue_def list_all_iff)
  then show ?thesis
    by (auto simp: list_all_iff set_distinctInOrder)
qed

lemma resolveProduct_ok:
  assumes "validatedFields p"
  shows "\<exists>rvs. resolveProduct cat p = Resolved \<lparr> res_flat = p, res_variants = rvs \<rparr>
           \<and> list_all2 (variantResolved cat) (p_variants p) rvs"
proof -
  let ?ids = "distinctInOrder (map vv_attributeId (concat (map v_values (p_variants p))))"
  let ?found = "if ?ids \<noteq> [] then Attribute_find cat ?ids else Inr []"
  from validated_attribute_ids [OF assms] have "\<exists>attrs. ?found = Inr attrs"
    by (simp add: Attribute_find_def)
  then obtain attrs where found: "?found = Inr attrs" ..
  then have sub: "set attrs \<subseteq> set cat"
    using Attribute_find_subset by (auto split: if_splits)
  have "resolveProduct cat p = Resolved \<lparr> res_flat = p, res_variants =
          map (resolveVariant (attrById attrs) (valByAttrId attrs)) (p_variants p) \<rparr>"
    using found by (simp add: resolveProduct_def Let_def)
  moreover have "list_all2 (variantResolved cat) (p_variants p)
          (map (resolveVariant (attrById attrs) (valByAttrId attrs)) (p_variants p))"
    by (simp add: list_all2_map_right resolveVariant_ok [OF sub])
  ultimately show ?thesis by blast
qed


lemma stale_socks_valid: "validatedFields staleSocks"
  by code_simp

lemma stale_socks_found:
  "Product_findById [staleSocks] ''68c709d4e1e28a7c7730c241'' = Inr (Some staleSocks)"
  by code_simp

lemma stale_socks_resolved:
  "getOne exCatalog [staleSocks] ''68c709d4e1e28a7c7730c241'' =
     Resolved \<lparr> res_flat = staleSocks,
       res_variants =
         [\<lparr> rvar_id = ''68c709d4e1e28a7c7730c242'', rvar_price = Some (Finite 7), rvar_salePrice = None,
            rvar_stock = Some (Finite 30),
            rvar_attributesResolved =
              [\<lparr> rp_attribute = placeholderAttribute ''68b9d650e9f857534e61dc00'',
                 rp_values = [placeholderValue sizeS],
                 rp_stock = Some (Finite 30) \<rparr>,
               \<lparr> rp_attribute = \<lparr> ra_id = sizeId, ra_name = Some ''Size'', ra_code = Some ''size'',
                                   ra_type = Some TypeSize, ra_isActive = Some True \<rparr>,
                 rp_values = [\<lparr> rv_id = sizeM, rv_label = Some ''M'', rv_value = None,
                                 rv_meta = None \<rparr>,
                              placeholderValue colorRed],
                 rp_stock = Some (Finite 30) \<rparr>] \<rparr>] \<rparr>"
  by code_simp


text \<open>
  Claim C8. For every stored product (its fields validated) and every catalog, the read-path
  projection answers with the resolved product: it never fails on a dangling
  reference. Every variant, pair and value id is projected in place, none dropped; a
  pair whose attribute id the catalog does not hold carries the placeholder attribute
  (name, code, type and isActive null), and a value id that no catalog attribute of
  that id defines carries the placeholder value (label, value and meta null).
\<close>

theorem resolution_never_fails:
  assumes "validatedFields p"
  shows "\<exists>rvs. resolveProduct cat p = Resolved \<lparr> res_flat = p, res_variants = rvs \<rparr>
           \<and> list_all2 (variantResolved cat) (p_variants p) rvs
           \<and> (Product_findById st i = Inr (Some p) \<longrightarrow> getOne cat st i = resolveProduct cat p)"
  using resolveProduct_ok [OF assms, of cat]
  by (auto simp: getOne_def)


theorem resolution_never_fails_witness:
  "validatedFields staleSocks
   \<and> Product_findById [staleSocks] ''68c709d4e1e28a7c7730c241'' = Inr (Some staleSocks)
   \<and> (\<exists>rvs. getOne exCatalog [staleSocks] ''68c709d4e1e28a7c7730c241''
                = Resolved \<lparr> res_flat = staleSocks, res_variants = rvs \<rparr>
              \<and> list_all2 (variantResolved exCatalog) (p_variants staleSocks) rvs
              \<and> map (\<lambda>r. map rp_attribute (rvar_attributesResolved r)) rvs
                  = [[placeholderAttribute ''68b9d650e9f857534e61dc00'',
                      attributeInfo (hd exCatalog)]]
              \<and> map (\<lambda>r. map (\<lambda>q. map rv_label (rp_values q)) (rvar_attributesResolved r)) rvs
                  = [[[None], [Some ''M'', None]]])"
proof -
  from resolution_never_fails [OF stale_socks_valid, of exCatalog "[staleSocks]"
      "''68c709d4e1e28a7c7730c241''"] stale_socks_found
  obtain rvs where
    r: "getOne exCatalog [staleSocks] ''68c709d4e1e28a7c7730c241''
          = Resolved \<lparr> res_flat = staleSocks, res_variants = rvs \<rparr>"
    and ok: "list_all2 (variantResolved exCatalog) (p_variants staleSocks) rvs"
    by auto
  from r have rvs: "rvs =
         [\<lparr> rvar_id = ''68c709d4e1e28a7c7730c242'', rvar_price = Some (Finite 7), rvar_salePrice = None,
            rvar_stock = Some (Finite 30),
            rvar_attributesResolved =
              [\<lparr> rp_attribute = placeholderAttribute ''68b9d650e9f857534e61dc00'',
                 rp_values = [placeholderValue sizeS],
                 rp_stock = Some (Finite 30) \<rparr>,
               \<lparr> rp_attribute = \<lparr> ra_id = sizeId, ra_name = Some ''Size'', ra_code = Some ''size'',
                                   ra_type = Some TypeSize, ra_isActive = Some True \<rparr>,
                 rp_values = [\<lparr> rv_id = sizeM, rv_label = Some ''M'', rv_value = None,
                                 rv_meta = None \<rparr>,
                              placeholderValue colorRed],
                 rp_stock = Some (Finite 30) \<rparr>] \<rparr>]"
    by (simp add: stale_socks_resolved)
  have a: "map (\<lambda>r. map rp_attribute (rvar_attributesResolved r)) rvs
                  = [[placeholderAttribute ''68b9d650e9f857534e61dc00'',
                      attributeInfo (hd exCatalog)]]"
    by (simp add: rvs attributeInfo_def exCatalog_def)
  have l: "map (\<lambda>r. map (\<lambda>q. map rv_label (rp_values q)) (rvar_attributesResolved r)) rvs
                  = [[[None], [Some ''M'', None]]]"
    by (simp add: rvs placeholderValue_def)
  show ?thesis
    by (intro conjI exI [of _ rvs]) (fact stale_socks_valid stale_socks_found r ok a l)+
qed

section \<open>Expected bad input\<close>


text \<open>
  Claim C10 does not hold of the code. Expected bad input that the controller does
  not test itself reaches \<^verbatim>\<open>save\<close>, whose hook error or validation error the \<^verbatim>\<open>catch\<close>
  block reports as the generic failure (500): an update that replaces the variants of
  the tee without naming a main attribute, an update that sets the tee's stock to
  \<^verbatim>\<open>null\<close>, and creations with a negative stock or a negative variant stock. Nothing
  is written in any of them.
\<close>

theorem bad_input_reported_as_internal_error:
  "updateById exGen [teeProduct] teeAddVariants = (InternalError, [teeProduct])
   \<and> updateById exGen [teeProduct] teeStockNull = (InternalError, [teeProduct])
   \<and> create exGen exCatalog [] teeNegativeStock = (InternalError, [])
   \<and> create exGen exCatalog [] socksNegativeStock = (InternalError, [])"
proof -
  have "updateById exGen [teeProduct] teeAddVariants = (InternalError, [teeProduct])"
    by code_simp
  moreover have "updateById exGen [teeProduct] teeStockNull = (InternalError, [teeProduct])"
    by code_simp
  moreover have "create exGen exCatalog [] teeNegativeStock = (InternalError, [])"
    by code_simp
  moreover have "create exGen exCatalog [] socksNegativeStock = (InternalError, [])"
    by code_simp
  ultimately show ?thesis by simp
qed

end
